theory Spec2Isabelle
  imports Complex_Main "HOL-Library.Multiset"
begin

section \<open>Executors of kmol/model/executors.py\<close>

text \<open>
  The executors sequence training, prediction, checkpoint handling and the learning-rate
  search around collaborators that live in other modules (network, optimizer, scheduler,
  metric processor, event manager). The embedding keeps the control flow and the state
  of the executors; the collaborators appear as opaque states and as parameters.
  Every exception the source can raise in the modelled code is a value of \<open>error\<close>,
  and a function that can raise returns \<open>error + 'a\<close> with \<open>Inl\<close> for the raise.
\<close>

datatype error =
    CheckpointNotFound
  | ValueError
  | AttributeError
  | IndexError
  | KeyError
  | TypeError
  | StopIteration
  | UnboundLocalError
  | NameError

subsection \<open>Checkpoints and the executor state\<close>

text \<open>
  A state blob stands for what \<open>state_dict()\<close> returns: an opaque serialisable value.
  A checkpoint file holds a Python dict with string keys, whose values are the epoch
  (an int) or state blobs.
\<close>

type_synonym state_blob = nat

datatype pyvalue = IntV int | StateV state_blob

type_synonym info = "string \<rightharpoonup> pyvalue"

type_synonym filesystem = "string \<rightharpoonup> info"

record config =
  checkpoint_path :: "string option"
  is_finetuning :: bool
  epochs :: int
  overwrite_checkpoint :: bool
  output_path :: string
  target_metric :: string
  probe_layer :: "string option"

text \<open>
  The fields of \<open>AbstractExecutor\<close> that checkpoint handling reads and writes.
  \<open>optimizer\<close> and \<open>scheduler\<close> are \<open>None\<close> until \<open>Trainer._setup\<close> creates
  them; once created they hold their current state. \<open>_start_epoch\<close> is assigned
  whatever the checkpoint stores under \<open>epoch\<close>, so it has the type of a checkpoint
  value. \<open>network\<close> is the state of the network's weights, and
  \<open>network_is_ensemble\<close> is what \<open>isinstance(self.network, EnsembleNetwork)\<close> returns.
\<close>

record executor =
  conf :: config
  network :: pyvalue
  network_is_ensemble :: bool
  optimizer :: "pyvalue option"
  scheduler :: "pyvalue option"
  start_epoch :: pyvalue

text \<open>
  Modelled from the spec: \<open>AbstractNetwork.load_checkpoint\<close> (kmol/model/architectures.py is
  not part of the sources). It restores the network weights from the checkpoint file and
  fails with \<open>CheckpointNotFound\<close> when no path is configured or the file is absent.
  The weights are the checkpoint's \<open>model\<close> entry; a mapping without that entry is a
  \<open>KeyError\<close>, as a Python dict lookup is.
\<close>

definition network_load_checkpoint ::
  "filesystem \<Rightarrow> string option \<Rightarrow> error + pyvalue" where
  "network_load_checkpoint fs path =
     (case path of
        None \<Rightarrow> Inl CheckpointNotFound
      | Some p \<Rightarrow>
          (case fs p of
             None \<Rightarrow> Inl CheckpointNotFound
           | Some ck \<Rightarrow>
               (case ck ''model'' of
                  None \<Rightarrow> Inl KeyError
                | Some w \<Rightarrow> Inr w)))"

text \<open>
  \<open>torch.load\<close> of the configured path. It is only reached after the network has loaded
  the same file, so the two failure branches repeat those of the network.
\<close>

definition torch_load :: "filesystem \<Rightarrow> string option \<Rightarrow> error + info" where
  "torch_load fs path =
     (case path of
        None \<Rightarrow> Inl CheckpointNotFound
      | Some p \<Rightarrow> (case fs p of None \<Rightarrow> Inl CheckpointNotFound | Some ck \<Rightarrow> Inr ck))"

text \<open>
  The three guarded assignments of \<open>_load_checkpoint\<close>, lines 86 to 93. The optimizer
  and the scheduler are tested for truthiness first (\<open>self.optimizer and ...\<close>): a
  \<open>None\<close> optimizer is never loaded into.
\<close>

definition restore_optimizer :: "info \<Rightarrow> executor \<Rightarrow> executor" where
  "restore_optimizer ck ex =
     (if optimizer ex \<noteq> None \<and> ck ''optimizer'' \<noteq> None
      then ex\<lparr>optimizer := ck ''optimizer''\<rparr> else ex)"

definition restore_scheduler :: "info \<Rightarrow> executor \<Rightarrow> executor" where
  "restore_scheduler ck ex =
     (if scheduler ex \<noteq> None \<and> ck ''scheduler'' \<noteq> None
      then ex\<lparr>scheduler := ck ''scheduler''\<rparr> else ex)"

definition restore_epoch :: "info \<Rightarrow> executor \<Rightarrow> executor" where
  "restore_epoch ck ex =
     (case ck ''epoch'' of None \<Rightarrow> ex | Some e \<Rightarrow> ex\<lparr>start_epoch := e\<rparr>)"

text \<open>
  \<open>AbstractExecutor._load_checkpoint\<close>. The two event dispatches around the load hand
  the executor to the observers and do nothing by themselves; the model is the function's
  own effect.
\<close>

definition load_checkpoint :: "filesystem \<Rightarrow> bool \<Rightarrow> executor \<Rightarrow> error + executor" where
  "load_checkpoint fs train ex =
     (case network_load_checkpoint fs (checkpoint_path (conf ex)) of
        Inl e \<Rightarrow> Inl e
      | Inr w \<Rightarrow>
          (let ex1 = ex\<lparr>network := w\<rparr> in
           if \<not> is_finetuning (conf ex1) \<and> train then
             (case torch_load fs (checkpoint_path (conf ex1)) of
                Inl e \<Rightarrow> Inl e
              | Inr ck \<Rightarrow> Inr (restore_epoch ck (restore_scheduler ck (restore_optimizer ck ex1))))
           else Inr ex1))"

text \<open>
  What the claims call restored: after the call the field holds the value stored in the
  checkpoint under its key.
\<close>

definition optimizer_restored :: "info \<Rightarrow> executor \<Rightarrow> bool" where
  "optimizer_restored ck ex' \<longleftrightarrow> ck ''optimizer'' \<noteq> None \<and> optimizer ex' = ck ''optimizer''"

definition scheduler_restored :: "info \<Rightarrow> executor \<Rightarrow> bool" where
  "scheduler_restored ck ex' \<longleftrightarrow> ck ''scheduler'' \<noteq> None \<and> scheduler ex' = ck ''scheduler''"

definition epoch_restored :: "info \<Rightarrow> executor \<Rightarrow> bool" where
  "epoch_restored ck ex' \<longleftrightarrow> ck ''epoch'' = Some (start_epoch ex')"

subsection \<open>Device transfer\<close>

text \<open>
  The values a batch can carry under \<open>inputs\<close>: a tensor or a torch-geometric
  \<open>Data\<close> object (each on a device, with contents that the transfer does not touch), a
  dict, a list, or any other object. Only tensors and \<open>Data\<close> objects have a
  \<open>to\<close> method.
\<close>

datatype device = Cpu | Cuda nat

datatype pyobj =
    PyTensor device nat
  | PyData device nat
  | PyDict "(string \<times> pyobj) list"
  | PyList "pyobj list"
  | PyOther nat

fun is_tensor :: "pyobj \<Rightarrow> bool" where
  "is_tensor (PyTensor d c) = True"
| "is_tensor v = False"

fun is_data :: "pyobj \<Rightarrow> bool" where
  "is_data (PyData d c) = True"
| "is_data v = False"

text \<open>\<open>v.to(device)\<close>: an \<open>AttributeError\<close> on an object without the method.\<close>

fun obj_to :: "device \<Rightarrow> pyobj \<Rightarrow> error + pyobj" where
  "obj_to dev (PyTensor d c) = Inr (PyTensor dev c)"
| "obj_to dev (PyData d c) = Inr (PyData dev c)"
| "obj_to dev v = Inl AttributeError"

text \<open>
  In \<open>dict_to_device(self, dict)\<close> the parameter is named \<open>dict\<close>, so the test
  \<open>type(v) is dict\<close> on line 68 compares the class of \<open>v\<close> with the mapping being
  traversed, not with the builtin class. A class object is never identical to a
  mapping instance: the test is false for every \<open>v\<close>.
\<close>

definition type_is_parameter :: "pyobj \<Rightarrow> (string \<times> pyobj) list \<Rightarrow> bool" where
  "type_is_parameter v d = False"

function dict_to_device :: "device \<Rightarrow> (string \<times> pyobj) list \<Rightarrow> (string \<times> pyobj) list" where
  "dict_to_device dev d =
     map (\<lambda>kv.
            (fst kv,
             if type_is_parameter (snd kv) d then
               (case snd kv of PyDict d' \<Rightarrow> PyDict (dict_to_device dev d') | v \<Rightarrow> v)
             else if is_tensor (snd kv) \<or> is_data (snd kv) then
               (case obj_to dev (snd kv) of Inr v' \<Rightarrow> v' | Inl e \<Rightarrow> snd kv)
             else snd kv)) d"
  by pat_completeness auto
termination
  by (relation "measure (\<lambda>(dev, d). size_list (size_prod (\<lambda>k. 0) size) d)")
     (auto simp: type_is_parameter_def)

text \<open>The comprehension \<open>[a.to(self._device) for a in values]\<close>: the first failing element raises.\<close>

fun all_to :: "device \<Rightarrow> pyobj list \<Rightarrow> error + pyobj list" where
  "all_to dev [] = Inr []"
| "all_to dev (a # as) =
     (case obj_to dev a of
        Inl e \<Rightarrow> Inl e
      | Inr a' \<Rightarrow> (case all_to dev as of Inl e \<Rightarrow> Inl e | Inr as' \<Rightarrow> Inr (a' # as')))"

text \<open>
  The body of the \<open>try\<close> in \<open>_to_device\<close> for one entry: the value the entry is
  assigned, or the exception raised before the assignment. \<open>values[0]\<close> on an empty
  list is an \<open>IndexError\<close>.
\<close>

fun transfer_value :: "device \<Rightarrow> pyobj \<Rightarrow> error + pyobj" where
  "transfer_value dev (PyTensor d c) = obj_to dev (PyTensor d c)"
| "transfer_value dev (PyData d c) = obj_to dev (PyData d c)"
| "transfer_value dev (PyDict d) = Inr (PyDict (dict_to_device dev d))"
| "transfer_value dev (PyList vs) =
     (case vs of
        [] \<Rightarrow> Inl IndexError
      | v # rest \<Rightarrow>
          if is_tensor v then
            (case all_to dev vs of Inl e \<Rightarrow> Inl e | Inr vs' \<Rightarrow> Inr (PyList vs'))
          else Inr (PyList vs))"
| "transfer_value dev (PyOther n) = Inr (PyOther n)"

record batch =
  inputs :: "(string \<times> pyobj) list"
  outputs :: pyobj

text \<open>
  The loop of \<open>_to_device\<close> over \<open>batch.inputs.items()\<close>. The handler catches
  \<open>AttributeError\<close> and \<open>ValueError\<close> only: it logs the exception and the entry keeps
  its value. Any other exception leaves the loop and the function. The second component
  is the debug log.
\<close>

fun to_device_items ::
  "device \<Rightarrow> (string \<times> pyobj) list \<Rightarrow> error list \<Rightarrow> error + ((string \<times> pyobj) list \<times> error list)" where
  "to_device_items dev [] lg = Inr ([], lg)"
| "to_device_items dev ((key, values) # rest) lg =
     (case transfer_value dev values of
        Inr v' \<Rightarrow>
          (case to_device_items dev rest lg of
             Inl e \<Rightarrow> Inl e
           | Inr (rest', lg') \<Rightarrow> Inr ((key, v') # rest', lg'))
      | Inl e \<Rightarrow>
          if e = AttributeError \<or> e = ValueError then
            (case to_device_items dev rest (lg @ [e]) of
               Inl e' \<Rightarrow> Inl e'
             | Inr (rest', lg') \<Rightarrow> Inr ((key, values) # rest', lg'))
          else Inl e)"

definition to_device :: "device \<Rightarrow> batch \<Rightarrow> error list \<Rightarrow> error + (batch \<times> error list)" where
  "to_device dev b lg =
     (case obj_to dev (outputs b) of
        Inl e \<Rightarrow> Inl e
      | Inr out \<Rightarrow>
          (case to_device_items dev (inputs b) lg of
             Inl e \<Rightarrow> Inl e
           | Inr (ins, lg') \<Rightarrow> Inr (b\<lparr>inputs := ins, outputs := out\<rparr>, lg')))"

subsection \<open>Python floats\<close>

text \<open>
  A Python float is an IEEE 754 binary64 value: a NaN, an infinity, or a finite real
  with a 53-bit significand (the two zeros are not told apart: no operation of the
  executors does). \<open>fgt a b\<close> is \<open>a > b\<close> and \<open>flt a b\<close> is \<open>a < b\<close>; both
  are false whenever a NaN is involved.
\<close>

datatype pyfloat = NaN | NegInf | Finite real | PosInf

fun fgt :: "pyfloat \<Rightarrow> pyfloat \<Rightarrow> bool" where
  "fgt NaN b = False"
| "fgt a NaN = False"
| "fgt NegInf b = False"
| "fgt (Finite x) NegInf = True"
| "fgt (Finite x) (Finite y) = (y < x)"
| "fgt (Finite x) PosInf = False"
| "fgt PosInf PosInf = False"
| "fgt PosInf b = True"

definition flt :: "pyfloat \<Rightarrow> pyfloat \<Rightarrow> bool" where
  "flt a b = fgt b a"

text \<open>
  Rounding of a real to the nearest binary64 value, ties to the even significand.
  \<open>binary_exponent x\<close> is the \<open>e\<close> with \<open>2 ^ e \<le> x < 2 ^ (e + 1)\<close> for a positive
  \<open>x\<close>; below \<open>2 ^ -1022\<close> the spacing of the subnormal numbers applies, and a
  result of magnitude \<open>2 ^ 1024\<close> or more overflows to an infinity.
\<close>

definition pow2 :: "int \<Rightarrow> real" where
  "pow2 i = (if 0 \<le> i then 2 ^ nat i else 1 / 2 ^ nat (- i))"

function exponent_down :: "real \<Rightarrow> int \<Rightarrow> int" where
  "exponent_down x e = (if 2 \<le> x then exponent_down (x / 2) (e + 1) else e)"
  by pat_completeness auto
termination
proof (relation "measure (\<lambda>(x, e). nat \<lceil>x\<rceil>)")
  show "wf (measure (\<lambda>(x, e). nat \<lceil>x\<rceil>))" by simp
next
  fix x :: real and e :: int
  assume x: "2 \<le> x"
  have "x / 2 \<le> of_int \<lceil>x\<rceil> - 1"
    using x le_of_int_ceiling [of x] by linarith
  then have "x / 2 \<le> of_int (\<lceil>x\<rceil> - 1)"
    by simp
  then have "\<lceil>x / 2\<rceil> \<le> \<lceil>x\<rceil> - 1"
    by (simp only: ceiling_le_iff)
  moreover have "2 \<le> \<lceil>x\<rceil>"
    using x by (simp add: le_ceiling_iff)
  ultimately show "((x / 2, e + 1), (x, e)) \<in> measure (\<lambda>(x, e). nat \<lceil>x\<rceil>)"
    by simp
qed

function exponent_up :: "real \<Rightarrow> int \<Rightarrow> int" where
  "exponent_up x e = (if 0 < x \<and> x < 1 then exponent_up (2 * x) (e - 1) else e)"
  by pat_completeness auto
termination
proof (relation "measure (\<lambda>(x, e). nat \<lceil>1 / x\<rceil>)")
  show "wf (measure (\<lambda>(x, e). nat \<lceil>1 / x\<rceil>))" by simp
next
  fix x :: real and e :: int
  assume x: "0 < x \<and> x < 1"
  define y where "y = 1 / x"
  from x have y: "1 < y" by (simp add: y_def)
  then have c: "2 \<le> \<lceil>y\<rceil>"
    by (simp add: le_ceiling_iff)
  from c have "2 \<le> (of_int \<lceil>y\<rceil> :: real)" by linarith
  then have "y / 2 \<le> of_int \<lceil>y\<rceil> - 1"
    using le_of_int_ceiling [of y] by linarith
  then have "y / 2 \<le> of_int (\<lceil>y\<rceil> - 1)"
    by simp
  then have "\<lceil>y / 2\<rceil> \<le> \<lceil>y\<rceil> - 1"
    by (simp only: ceiling_le_iff)
  with c have "nat \<lceil>y / 2\<rceil> < nat \<lceil>y\<rceil>"
    by linarith
  moreover have eq: "1 / (2 * x) = y / 2"
    by (simp add: y_def)
  ultimately have "nat \<lceil>1 / (2 * x)\<rceil> < nat \<lceil>1 / x\<rceil>"
    by (simp only: eq y_def)
  then show "((2 * x, e - 1), (x, e)) \<in> measure (\<lambda>(x, e). nat \<lceil>1 / x\<rceil>)"
    by (simp only: in_measure prod.case)
qed

definition binary_exponent :: "real \<Rightarrow> int" where
  "binary_exponent x = (if 1 \<le> x then exponent_down x 0 else exponent_up x 0)"

definition round_half_even :: "real \<Rightarrow> int" where
  "round_half_even q =
     (let f = \<lfloor>q\<rfloor> in
      if q - of_int f < 1 / 2 then f
      else if 1 / 2 < q - of_int f then f + 1
      else if even f then f else f + 1)"

definition round_double :: "real \<Rightarrow> pyfloat" where
  "round_double x =
     (if x = 0 then Finite 0
      else
        (let e = max (binary_exponent \<bar>x\<bar>) (- 1022);
             u = pow2 (e - 52);
             v = of_int (round_half_even (x / u)) * u
         in if pow2 1024 \<le> \<bar>v\<bar> then (if 0 < v then PosInf else NegInf) else Finite v))"

text \<open>
  The arithmetic of floats: the exact result, rounded. An infinity absorbs a finite
  operand; \<open>inf - inf\<close> and \<open>0 * inf\<close> are NaN; a NaN operand gives NaN.
\<close>

fun fneg :: "pyfloat \<Rightarrow> pyfloat" where
  "fneg NaN = NaN"
| "fneg NegInf = PosInf"
| "fneg (Finite x) = Finite (- x)"
| "fneg PosInf = NegInf"

fun fadd :: "pyfloat \<Rightarrow> pyfloat \<Rightarrow> pyfloat" where
  "fadd NaN b = NaN"
| "fadd a NaN = NaN"
| "fadd (Finite x) (Finite y) = round_double (x + y)"
| "fadd (Finite x) b = b"
| "fadd a (Finite y) = a"
| "fadd NegInf NegInf = NegInf"
| "fadd PosInf PosInf = PosInf"
| "fadd a b = NaN"

definition fsub :: "pyfloat \<Rightarrow> pyfloat \<Rightarrow> pyfloat" where
  "fsub a b = fadd a (fneg b)"

fun fsign :: "pyfloat \<Rightarrow> int" where
  "fsign NaN = 0"
| "fsign NegInf = - 1"
| "fsign (Finite x) = (if x < 0 then - 1 else if x = 0 then 0 else 1)"
| "fsign PosInf = 1"

fun fmul :: "pyfloat \<Rightarrow> pyfloat \<Rightarrow> pyfloat" where
  "fmul NaN b = NaN"
| "fmul a NaN = NaN"
| "fmul (Finite x) (Finite y) = round_double (x * y)"
| "fmul a b =
     (if fsign a * fsign b = 0 then NaN
      else if 0 < fsign a * fsign b then PosInf else NegInf)"

text \<open>
  \<open>float_literal r\<close>: the float that a decimal literal denoting \<open>r\<close> evaluates to,
  and the float of a Python int in an arithmetic operation with a float.
\<close>

definition float_literal :: "real \<Rightarrow> pyfloat" where
  "float_literal r = round_double r"

subsection \<open>Trainer\<close>

text \<open>
  Modelled from the spec: \<open>Namespace\<close> (kmol/core/helpers.py is not part of the sources),
  an open-ended namespace of named fields. Two namespaces are equal when they have the
  same fields, so \<open>val_metrics == Namespace()\<close> holds exactly for a namespace without
  fields. The statistics of a metric are a list, one float per aggregator.
\<close>

type_synonym namespace = "(string \<times> pyfloat list) list"

text \<open>\<open>str(epoch)\<close> for a Python int.\<close>

definition digit_char :: "nat \<Rightarrow> char" where
  "digit_char d = ''0123456789'' ! d"

fun str_nat :: "nat \<Rightarrow> string" where
  "str_nat n = (if n < 10 then [digit_char n] else str_nat (n div 10) @ [digit_char (n mod 10)])"

definition str_int :: "int \<Rightarrow> string" where
  "str_int i = (if i < 0 then CHR ''-'' # str_nat (nat (- i)) else str_nat (nat i))"

text \<open>
  A path built with \<open>Path(directory) / name\<close>: the directory and the name of the file
  in it.
\<close>

record path =
  parent :: string
  name :: string

text \<open>
  The state of a \<open>Trainer\<close>: the executor fields, the files written by \<open>torch.save\<close>
  in the order of the calls, the lines appended to logs.txt (the epoch, the
  validation metrics and the new-best marker of each), and the epochs that
  \<open>_train_epoch\<close> has been called with, in the order of the calls.
\<close>

record trainer =
  exec :: executor
  written :: "(path \<times> info) list"
  logs :: "(int \<times> namespace \<times> bool) list"
  trained :: "int list"

text \<open>
  Modelled from the spec: \<open>EventManager.dispatch_event\<close> (kmol/core/observers.py is not
  part of the sources) is a synchronous, ordered broadcast to the observers registered
  for the event, each of which may mutate the payload. For \<open>before_checkpoint_save\<close> the
  payload holds the dict \<open>info\<close> itself, and \<open>torch.save\<close> then writes that dict: an
  observer acts on what is saved by changing the dict in place, so it is a function on
  the dict.
\<close>

definition dispatch_event :: "('p \<Rightarrow> 'p) list \<Rightarrow> 'p \<Rightarrow> 'p" where
  "dispatch_event observers payload = fold (\<lambda>h p. h p) observers payload"

text \<open>
  \<open>Trainer.save\<close>. \<open>state_dict()\<close> of an optimizer or scheduler that is still
  \<open>None\<close> is an \<open>AttributeError\<close>.
\<close>

definition save :: "(info \<Rightarrow> info) list \<Rightarrow> int \<Rightarrow> trainer \<Rightarrow> error + trainer" where
  "save observers epoch tr =
     (case optimizer (exec tr) of
        None \<Rightarrow> Inl AttributeError
      | Some opt \<Rightarrow>
          (case scheduler (exec tr) of
             None \<Rightarrow> Inl AttributeError
           | Some sch \<Rightarrow>
               (let info = [''epoch'' \<mapsto> IntV epoch,
                            ''model'' \<mapsto> network (exec tr),
                            ''optimizer'' \<mapsto> opt,
                            ''scheduler'' \<mapsto> sch];
                    suffix = (if overwrite_checkpoint (conf (exec tr)) then ''best'' else str_int epoch);
                    model_path = \<lparr>parent = output_path (conf (exec tr)),
                                  name = ''checkpoint.'' @ suffix @ ''.pt''\<rparr>;
                    info' = dispatch_event observers info
                in Inr (tr\<lparr>written := written tr @ [(model_path, info')]\<rparr>))))"

text \<open>
  \<open>Trainer._check_best\<close>. \<open>getattr\<close> of a metric that the namespace does not have
  is an \<open>AttributeError\<close>, and \<open>[0]\<close> of an empty statistics list an \<open>IndexError\<close>.
\<close>

definition check_best ::
  "(info \<Rightarrow> info) list \<Rightarrow> int \<Rightarrow> namespace \<Rightarrow> pyfloat \<Rightarrow> trainer \<Rightarrow> error + (pyfloat \<times> bool \<times> trainer)" where
  "check_best observers epoch val_metrics best_metric tr =
     (case (if val_metrics = [] then Inr (True, best_metric)
            else (case map_of val_metrics (target_metric (conf (exec tr))) of
                    None \<Rightarrow> Inl AttributeError
                  | Some [] \<Rightarrow> Inl IndexError
                  | Some (target # others) \<Rightarrow> Inr (fgt target best_metric, target))) of
        Inl e \<Rightarrow> Inl e
      | Inr (new_best, target) \<Rightarrow>
          if new_best then
            (case save observers epoch tr of
               Inl e \<Rightarrow> Inl e
             | Inr tr' \<Rightarrow> Inr (target, new_best, tr'))
          else Inr (best_metric, new_best, tr))"

text \<open>
  \<open>Trainer._validation\<close>: an empty namespace without a validation loader, otherwise
  the averages that the metric processor computes for the loader at this epoch
  (\<open>averages\<close>, a parameter).
\<close>

definition validation :: "(int \<Rightarrow> 'v \<Rightarrow> namespace) \<Rightarrow> 'v option \<Rightarrow> int \<Rightarrow> namespace" where
  "validation averages val_loader epoch =
     (case val_loader of None \<Rightarrow> [] | Some loader \<Rightarrow> averages epoch loader)"

text \<open>
  \<open>Trainer._train_epoch\<close> steps the optimizer and the scheduler over the batches.
  \<open>learn epoch ex\<close> (a parameter) gives the states of the network, the optimizer and
  the scheduler after the epoch; the training steps are taken to return.
\<close>

definition train_epoch ::
  "(int \<Rightarrow> executor \<Rightarrow> pyvalue \<times> pyvalue \<times> pyvalue) \<Rightarrow> int \<Rightarrow> trainer \<Rightarrow> trainer" where
  "train_epoch learn epoch tr =
     (case learn epoch (exec tr) of
        (net, opt, sch) \<Rightarrow>
          tr\<lparr>exec := (exec tr)\<lparr>network := net, optimizer := Some opt, scheduler := Some sch\<rparr>,
             trained := trained tr @ [epoch]\<rparr>)"

text \<open>
  \<open>Trainer.log\<close>. The message formats \<open>value[0]\<close> for every field of the validation
  metrics, line 282, which is an \<open>IndexError\<close> for a field whose statistics list is
  empty; the line is appended to logs.txt after that.
\<close>

definition log_epoch :: "int \<Rightarrow> namespace \<Rightarrow> bool \<Rightarrow> trainer \<Rightarrow> error + trainer" where
  "log_epoch epoch val_metrics new_best tr =
     (if list_ex (\<lambda>field. snd field = []) val_metrics then Inl IndexError
      else Inr (tr\<lparr>logs := logs tr @ [(epoch, val_metrics, new_best)]\<rparr>))"

text \<open>
  \<open>Trainer._setup\<close>: the optimizer and the scheduler are created (\<open>opt0\<close>, \<open>sch0\<close>
  are their fresh states), then the checkpoint is loaded with \<open>train=True\<close>, and a
  \<open>CheckpointNotFound\<close> is swallowed.
\<close>

definition setup_trainer :: "filesystem \<Rightarrow> pyvalue \<Rightarrow> pyvalue \<Rightarrow> trainer \<Rightarrow> error + trainer" where
  "setup_trainer fs opt0 sch0 tr =
     (let ex1 = (exec tr)\<lparr>optimizer := Some opt0, scheduler := Some sch0\<rparr> in
      case load_checkpoint fs True ex1 of
        Inr ex2 \<Rightarrow> Inr (tr\<lparr>exec := ex2\<rparr>)
      | Inl e \<Rightarrow> if e = CheckpointNotFound then Inr (tr\<lparr>exec := ex1\<rparr>) else Inl e)"

text \<open>\<open>range(a, b)\<close> over Python ints.\<close>

function py_range :: "int \<Rightarrow> int \<Rightarrow> int list" where
  "py_range a b = (if a < b then a # py_range (a + 1) b else [])"
  by pat_completeness auto
termination
  by (relation "measure (\<lambda>(a, b). nat (b - a))") auto

text \<open>
  The epoch loop of \<open>Trainer.run\<close>, lines 158 to 164, over the epochs that \<open>range\<close>
  produced, threading \<open>best_metric\<close>.
\<close>

fun epoch_loop ::
  "(int \<Rightarrow> executor \<Rightarrow> pyvalue \<times> pyvalue \<times> pyvalue) \<Rightarrow> (int \<Rightarrow> 'v \<Rightarrow> namespace) \<Rightarrow>
   (info \<Rightarrow> info) list \<Rightarrow> 'v option \<Rightarrow> int list \<Rightarrow> pyfloat \<Rightarrow> trainer \<Rightarrow> error + (pyfloat \<times> trainer)" where
  "epoch_loop learn averages observers val_loader [] best_metric tr = Inr (best_metric, tr)"
| "epoch_loop learn averages observers val_loader (epoch # rest) best_metric tr =
     (let tr1 = train_epoch learn epoch tr;
          val_metrics = validation averages val_loader epoch
      in case check_best observers epoch val_metrics best_metric tr1 of
           Inl e \<Rightarrow> Inl e
         | Inr (best_metric', new_best, tr2) \<Rightarrow>
             (case log_epoch epoch val_metrics new_best tr2 of
                Inl e \<Rightarrow> Inl e
              | Inr tr3 \<Rightarrow> epoch_loop learn averages observers val_loader rest best_metric' tr3))"

text \<open>
  \<open>Trainer.run\<close>. \<open>self._start_epoch + 1\<close> is a \<open>TypeError\<close> when the checkpoint
  stored something other than an int under \<open>epoch\<close>. \<open>range\<close> is evaluated once,
  before the first epoch. The dispatches of \<open>before_train_start\<close> and
  \<open>after_train_end\<close> hand the trainer to the observers; the model is the run's own
  effect.
\<close>

definition run ::
  "filesystem \<Rightarrow> pyvalue \<Rightarrow> pyvalue \<Rightarrow>
   (int \<Rightarrow> executor \<Rightarrow> pyvalue \<times> pyvalue \<times> pyvalue) \<Rightarrow> (int \<Rightarrow> 'v \<Rightarrow> namespace) \<Rightarrow>
   (info \<Rightarrow> info) list \<Rightarrow> 'v option \<Rightarrow> trainer \<Rightarrow> error + (pyfloat \<times> trainer)" where
  "run fs opt0 sch0 learn averages observers val_loader tr =
     (case setup_trainer fs opt0 sch0 tr of
        Inl e \<Rightarrow> Inl e
      | Inr tr0 \<Rightarrow>
          (case start_epoch (exec tr0) of
             StateV s \<Rightarrow> Inl TypeError
           | IntV s \<Rightarrow>
               epoch_loop learn averages observers val_loader
                 (py_range (s + 1) (epochs (conf (exec tr0)) + 1)) NegInf tr0))"

subsection \<open>Predictor\<close>

datatype hook_probe = HookProbe "string option"

record predictor =
  pexec :: executor
  probe :: "hook_probe option"
  debug_log :: "error list"

text \<open>\<open>Predictor.set_hook_probe\<close>.\<close>

definition set_hook_probe :: "predictor \<Rightarrow> error + predictor" where
  "set_hook_probe pr =
     (if network_is_ensemble (pexec pr) then Inl ValueError
      else Inr (pr\<lparr>probe := Some (HookProbe (probe_layer (conf (pexec pr))))\<rparr>))"

text \<open>
  \<open>Predictor.run\<close>. The forward pass, plain or by Monte-Carlo dropout, with the
  \<open>before_predict\<close> dispatch before it and the normalisation of its result to named
  outputs after it, is the parameter \<open>infer\<close>; \<open>get_probe\<close> reads the activations
  that the probe captured. Outputs are named tensors, identified by a number. Nothing
  in \<open>run\<close> catches an exception.
\<close>

definition predictor_run ::
  "device \<Rightarrow> (batch \<Rightarrow> string \<rightharpoonup> nat) \<Rightarrow> (hook_probe \<Rightarrow> batch \<Rightarrow> nat) \<Rightarrow> batch \<Rightarrow> predictor \<Rightarrow>
   error + (predictor \<times> (string \<rightharpoonup> nat))" where
  "predictor_run dev infer get_probe b pr =
     (case to_device dev b (debug_log pr) of
        Inl e \<Rightarrow> Inl e
      | Inr (b', lg) \<Rightarrow>
          (let pr0 = pr\<lparr>debug_log := lg\<rparr> in
           case (if probe_layer (conf (pexec pr0)) \<noteq> None then set_hook_probe pr0 else Inr pr0) of
             Inl e \<Rightarrow> Inl e
           | Inr pr1 \<Rightarrow>
               (let outs = infer b';
                    outs' = (case probe pr1 of
                               None \<Rightarrow> outs
                             | Some hp \<Rightarrow> outs(''hidden_layer'' \<mapsto> get_probe hp b'))
                in Inr (pr1, outs'))))"

subsection \<open>Pipeliner\<close>

text \<open>
  \<open>Path(output_path).rglob("*.pt")\<close> walks the output directory and yields the paths
  whose name matches the pattern, in the order of the walk. \<open>listing\<close> is that walk:
  every path under the output directory, as a string, in the order the directory
  traversal produces them. A path matches when it ends in \<open>.pt\<close>.
\<close>

definition ends_with :: "string \<Rightarrow> string \<Rightarrow> bool" where
  "ends_with suffix s \<longleftrightarrow> length suffix \<le> length s \<and> drop (length s - length suffix) s = suffix"

definition rglob_pt :: "string list \<Rightarrow> string list" where
  "rglob_pt listing = filter (ends_with ''.pt'') listing"

text \<open>
  \<open>Pipeliner.find_all_checkpoints\<close>. Python's \<open>sorted\<close> is stable, as the
  insertion sort \<open>sort_key\<close> is.
\<close>

definition find_all_checkpoints :: "string list \<Rightarrow> string list" where
  "find_all_checkpoints listing = sort_key length (rglob_pt listing)"

subsection \<open>LearningRareFinder\<close>

text \<open>
  The class constants. \<open>DIVERGENCE_THRESHOLD\<close> is the int 5, which the product on
  line 497 converts to a float; \<open>SMOOTHING_FACTOR\<close> is the float of the literal 0.05.
\<close>

definition NUM_ITERATION :: nat where
  "NUM_ITERATION = 100"

definition DIVERGENCE_THRESHOLD :: pyfloat where
  "DIVERGENCE_THRESHOLD = float_literal 5"

definition SMOOTHING_FACTOR :: pyfloat where
  "SMOOTHING_FACTOR = float_literal 0.05"

text \<open>
  The state of the finder that its loop reads and writes: the two sequences of
  \<open>self.history\<close>, \<open>self.best_loss\<close> (\<open>None\<close> at the start of \<open>run\<close>), and what
  is left in \<open>self._iterator\<close>.
\<close>

record 'b finder =
  history_lr :: "pyfloat list"
  history_loss :: "pyfloat list"
  best_loss :: "pyfloat option"
  iterator :: "'b list"

text \<open>
  \<open>LearningRareFinder.track_best_loss\<close>: the smoothed loss and the updated state.
  \<open>self.history["loss"][-1]\<close> of an empty history is an \<open>IndexError\<close>, a comparison
  with a \<open>best_loss\<close> that is still \<open>None\<close> a \<open>TypeError\<close>, and \<open>smooth_loss\<close>
  is unbound when the smoothing factor is not positive.
\<close>

definition track_best_loss :: "nat \<Rightarrow> pyfloat \<Rightarrow> 'b finder \<Rightarrow> error + (pyfloat \<times> 'b finder)" where
  "track_best_loss iteration loss st =
     (if iteration = 0 then Inr (loss, st\<lparr>best_loss := Some loss\<rparr>)
      else if fgt SMOOTHING_FACTOR (float_literal 0) then
        (case history_loss st of
           [] \<Rightarrow> Inl IndexError
         | x # xs \<Rightarrow>
             (let smooth_loss =
                    fadd (fmul SMOOTHING_FACTOR loss)
                         (fmul (fsub (float_literal 1) SMOOTHING_FACTOR) (last (history_loss st)))
              in case best_loss st of
                   None \<Rightarrow> Inl TypeError
                 | Some best \<Rightarrow>
                     if flt smooth_loss best then Inr (smooth_loss, st\<lparr>best_loss := Some smooth_loss\<rparr>)
                     else Inr (smooth_loss, st)))
      else Inl UnboundLocalError)"

text \<open>
  Lines 471 to 475: the next batch, from a fresh iterator over the dataset when the
  current one is exhausted. \<open>next\<close> of the fresh iterator raises \<open>StopIteration\<close>
  when the dataset is empty.
\<close>

definition next_batch :: "'b list \<Rightarrow> 'b list \<Rightarrow> error + ('b \<times> 'b list)" where
  "next_batch dataset it =
     (case it of
        data # rest \<Rightarrow> Inr (data, rest)
      | [] \<Rightarrow> (case dataset of [] \<Rightarrow> Inl StopIteration | data # rest \<Rightarrow> Inr (data, rest)))"

text \<open>
  One pass through the body of the loop of \<open>run\<close>, lines 471 to 498. \<open>loss_of\<close> and
  \<open>lr_of\<close> are parameters: \<open>loss_of i data\<close> is \<open>loss.item()\<close> at iteration \<open>i\<close>
  on batch \<open>data\<close> (the device transfer, the forward pass, the \<open>before_criterion\<close>
  dispatch and the criterion), and \<open>lr_of i\<close> is what \<open>_get_learning_rate()\<close>
  returns on line 487 at iteration \<open>i\<close> (the optimizer and the scheduler, stepped
  once per iteration). The result is the new state and whether \<open>break\<close> is taken.
\<close>

definition finder_step ::
  "(nat \<Rightarrow> 'b \<Rightarrow> pyfloat) \<Rightarrow> (nat \<Rightarrow> pyfloat) \<Rightarrow> 'b list \<Rightarrow> nat \<Rightarrow> 'b finder \<Rightarrow>
   error + ('b finder \<times> bool)" where
  "finder_step loss_of lr_of dataset iteration st =
     (case next_batch dataset (iterator st) of
        Inl e \<Rightarrow> Inl e
      | Inr (data, it') \<Rightarrow>
          (case track_best_loss iteration (loss_of iteration data) (st\<lparr>iterator := it'\<rparr>) of
             Inl e \<Rightarrow> Inl e
           | Inr (smoothed_loss, st1) \<Rightarrow>
               (let st2 = st1\<lparr>history_lr := history_lr st1 @ [lr_of iteration]\<rparr>;
                    st3 = st2\<lparr>history_loss := history_loss st2 @ [smoothed_loss]\<rparr>
                in case best_loss st3 of
                     None \<Rightarrow> Inl TypeError
                   | Some best \<Rightarrow> Inr (st3, fgt smoothed_loss (fmul DIVERGENCE_THRESHOLD best)))))"

text \<open>The loop over the iterations that \<open>range(self.NUM_ITERATION)\<close> produced.\<close>

fun finder_loop ::
  "(nat \<Rightarrow> 'b \<Rightarrow> pyfloat) \<Rightarrow> (nat \<Rightarrow> pyfloat) \<Rightarrow> 'b list \<Rightarrow> nat list \<Rightarrow> 'b finder \<Rightarrow>
   error + 'b finder" where
  "finder_loop loss_of lr_of dataset [] st = Inr st"
| "finder_loop loss_of lr_of dataset (iteration # rest) st =
     (case finder_step loss_of lr_of dataset iteration st of
        Inl e \<Rightarrow> Inl e
      | Inr (st', stop) \<Rightarrow> if stop then Inr st' else finder_loop loss_of lr_of dataset rest st')"

text \<open>
  \<open>LearningRareFinder.run\<close>, lines 459 to 498: the loop, started on an empty history
  with a fresh iterator over the dataset. \<open>_setup\<close> and \<open>_set_learning_rate\<close>, which
  come before the loop, do not touch the state that the loop works on.
\<close>

definition finder_search ::
  "(nat \<Rightarrow> 'b \<Rightarrow> pyfloat) \<Rightarrow> (nat \<Rightarrow> pyfloat) \<Rightarrow> 'b list \<Rightarrow> error + 'b finder" where
  "finder_search loss_of lr_of dataset =
     finder_loop loss_of lr_of dataset [0..<NUM_ITERATION]
       \<lparr>history_lr = [], history_loss = [], best_loss = None, iterator = dataset\<rparr>"

text \<open>
  \<open>plt.savefig\<close> on line 504. No statement of the module binds the name \<open>plt\<close>
  (matplotlib is not among its imports), so evaluating the name raises \<open>NameError\<close>.
\<close>

definition plt_savefig :: "error + unit" where
  "plt_savefig = Inl NameError"

text \<open>
  \<open>LearningRareFinder.run\<close>: the loop, then lines 500 to 506, the plot (which reads
  the history), \<open>plt.savefig\<close>, and \<open>json.dump\<close> of the history into history.json.
  The second component of a result is the content of history.json.
\<close>

definition finder_run ::
  "(nat \<Rightarrow> 'b \<Rightarrow> pyfloat) \<Rightarrow> (nat \<Rightarrow> pyfloat) \<Rightarrow> 'b list \<Rightarrow>
   error + ('b finder \<times> pyfloat list \<times> pyfloat list)" where
  "finder_run loss_of lr_of dataset =
     (case finder_search loss_of lr_of dataset of
        Inl e \<Rightarrow> Inl e
      | Inr st \<Rightarrow>
          (case plt_savefig of
             Inl e \<Rightarrow> Inl e
           | Inr u \<Rightarrow> Inr (st, history_lr st, history_loss st)))"

subsection \<open>Vocabulary of the properties\<close>

text \<open>
  The mean of the target metric in a validation result: the first statistic stored
  under the metric's name, when there is one.
\<close>

definition target_value :: "string \<Rightarrow> namespace \<Rightarrow> pyfloat option" where
  "target_value m vm = (case map_of vm m of Some (v # vs) \<Rightarrow> Some v | _ \<Rightarrow> None)"

text \<open>
  The file of a checkpoint: \<open>checkpoint.<suffix>.pt\<close> under the output directory,
  with the suffix \<open>best\<close> when a single best file is overwritten and the epoch
  number otherwise.
\<close>

definition checkpoint_file :: "config \<Rightarrow> int \<Rightarrow> path" where
  "checkpoint_file c epoch =
     \<lparr>parent = output_path c,
      name = ''checkpoint.'' @ (if overwrite_checkpoint c then ''best'' else str_int epoch) @ ''.pt''\<rparr>"

text \<open>
  The persisted mapping: the epoch index and the states of the model, the optimizer and
  the scheduler, under the keys \<open>epoch\<close>, \<open>model\<close>, \<open>optimizer\<close> and
  \<open>scheduler\<close>.
\<close>

definition checkpoint_contents :: "int \<Rightarrow> executor \<Rightarrow> info" where
  "checkpoint_contents epoch ex =
     (\<lambda>key. if key = ''epoch'' then Some (IntV epoch)
            else if key = ''model'' then Some (network ex)
            else if key = ''optimizer'' then optimizer ex
            else if key = ''scheduler'' then scheduler ex
            else None)"

text \<open>
  A metric value is strictly greater than the best value seen so far when it is greater
  than the initial \<open>-inf\<close> and than every value seen before (a NaN is never a best
  value). \<open>new_best_flags prev ts\<close> marks the epochs that are a new best, for
  successive epochs that follow the values \<open>prev\<close>: \<open>ts\<close> holds, for each epoch, the
  mean of its target metric, or \<open>None\<close> for an epoch with an empty validation result,
  which is always a new best and leaves the best value as it is.
\<close>

definition exceeds_all :: "pyfloat \<Rightarrow> pyfloat list \<Rightarrow> bool" where
  "exceeds_all t prev \<longleftrightarrow> fgt t NegInf \<and> (\<forall>p \<in> set prev. p \<noteq> NaN \<longrightarrow> fgt t p)"

fun new_best_flags :: "pyfloat list \<Rightarrow> pyfloat option list \<Rightarrow> bool list" where
  "new_best_flags prev [] = []"
| "new_best_flags prev (None # ts) = True # new_best_flags prev ts"
| "new_best_flags prev (Some t # ts) = exceeds_all t prev # new_best_flags (prev @ [t]) ts"

text \<open>
  Device transfer. \<open>has_to v\<close>: the object has a \<open>to\<close> method; \<open>moved dev v\<close>: it
  after \<open>v.to(dev)\<close>. \<open>value_rel dev v v'\<close> relates an entry of \<open>batch.inputs\<close>
  before the transfer with the entry after it: a tensor or \<open>Data\<close> object is on the
  device; in a mapping, the objects it holds directly are on the device when they have a
  \<open>to\<close> method and are unchanged otherwise (nothing is said of a mapping inside the
  mapping); a list that starts with a tensor and holds only objects with a \<open>to\<close>
  method has all its elements on the device; any other list and any other object is
  unchanged. \<open>logged_entry v\<close>: a list that starts with a tensor and holds an object
  without a \<open>to\<close> method, the entry whose transfer is logged.
\<close>

definition has_to :: "pyobj \<Rightarrow> bool" where
  "has_to v \<longleftrightarrow> is_tensor v \<or> is_data v"

fun is_dict :: "pyobj \<Rightarrow> bool" where
  "is_dict (PyDict d) = True"
| "is_dict v = False"

fun moved :: "device \<Rightarrow> pyobj \<Rightarrow> pyobj" where
  "moved dev (PyTensor d c) = PyTensor dev c"
| "moved dev (PyData d c) = PyData dev c"
| "moved dev v = v"

definition held_rel :: "device \<Rightarrow> string \<times> pyobj \<Rightarrow> string \<times> pyobj \<Rightarrow> bool" where
  "held_rel dev kv kv' \<longleftrightarrow>
     fst kv' = fst kv
     \<and> (if has_to (snd kv) then snd kv' = moved dev (snd kv)
        else is_dict (snd kv) \<or> snd kv' = snd kv)"

fun movable_list :: "pyobj list \<Rightarrow> bool" where
  "movable_list [] = False"
| "movable_list (v # vs) = (is_tensor v \<and> list_all has_to vs)"

fun value_rel :: "device \<Rightarrow> pyobj \<Rightarrow> pyobj \<Rightarrow> bool" where
  "value_rel dev (PyTensor d c) v' = (v' = PyTensor dev c)"
| "value_rel dev (PyData d c) v' = (v' = PyData dev c)"
| "value_rel dev (PyDict d) v' = (case v' of PyDict d' \<Rightarrow> list_all2 (held_rel dev) d d' | _ \<Rightarrow> False)"
| "value_rel dev (PyList vs) v' =
     (v' = (if movable_list vs then PyList (map (moved dev) vs) else PyList vs))"
| "value_rel dev (PyOther n) v' = (v' = PyOther n)"

definition entry_rel :: "device \<Rightarrow> string \<times> pyobj \<Rightarrow> string \<times> pyobj \<Rightarrow> bool" where
  "entry_rel dev kv kv' \<longleftrightarrow> fst kv' = fst kv \<and> value_rel dev (snd kv) (snd kv')"

fun logged_entry :: "pyobj \<Rightarrow> bool" where
  "logged_entry (PyList (v # vs)) = (is_tensor v \<and> \<not> list_all has_to vs)"
| "logged_entry v = False"

text \<open>
  The learning-rate search. The loop cycles through the dataset, so iteration \<open>i\<close>
  works on batch \<open>i mod length dataset\<close> and sees the loss \<open>loss_at loss_of dataset i\<close>.
  For a sequence \<open>l\<close> of losses, \<open>smoothed l i\<close> is the exponentially smoothed loss
  at iteration \<open>i\<close>, \<open>s\<^sub>i = 0.05 * l\<^sub>i + (1 - 0.05) * s\<^sub>i\<^sub>-\<^sub>1\<close> in float arithmetic,
  \<open>best_smoothed l i\<close> the best (least) smoothed loss recorded up to and including
  iteration \<open>i\<close>, and \<open>diverged l i\<close> says that the smoothed loss of iteration \<open>i\<close>
  exceeds 5 times the best smoothed loss recorded so far.
\<close>

definition batch_at :: "'b list \<Rightarrow> nat \<Rightarrow> 'b" where
  "batch_at dataset i = dataset ! (i mod length dataset)"

definition loss_at :: "(nat \<Rightarrow> 'b \<Rightarrow> pyfloat) \<Rightarrow> 'b list \<Rightarrow> nat \<Rightarrow> pyfloat" where
  "loss_at loss_of dataset i = loss_of i (batch_at dataset i)"

fun smoothed :: "(nat \<Rightarrow> pyfloat) \<Rightarrow> nat \<Rightarrow> pyfloat" where
  "smoothed l 0 = l 0"
| "smoothed l (Suc i) =
     fadd (fmul (float_literal 0.05) (l (Suc i)))
          (fmul (fsub (float_literal 1) (float_literal 0.05)) (smoothed l i))"

fun best_smoothed :: "(nat \<Rightarrow> pyfloat) \<Rightarrow> nat \<Rightarrow> pyfloat" where
  "best_smoothed l 0 = l 0"
| "best_smoothed l (Suc i) =
     (if flt (smoothed l (Suc i)) (best_smoothed l i) then smoothed l (Suc i)
      else best_smoothed l i)"

definition diverged :: "(nat \<Rightarrow> pyfloat) \<Rightarrow> nat \<Rightarrow> bool" where
  "diverged l i \<longleftrightarrow> fgt (smoothed l i) (fmul (float_literal 5) (best_smoothed l i))"

text \<open>
  \<open>run_until l k m\<close>: the number of iterations completed when the loop, about to
  start iteration \<open>k\<close> with \<open>m\<close> iterations left, ends. \<open>finder_after\<close>: the state
  of the finder once \<open>k\<close> iterations are completed, with the iterator left by the last
  of them.
\<close>

fun run_until :: "(nat \<Rightarrow> pyfloat) \<Rightarrow> nat \<Rightarrow> nat \<Rightarrow> nat" where
  "run_until l k 0 = k"
| "run_until l k (Suc m) = (if diverged l k then Suc k else run_until l (Suc k) m)"

definition iterator_after :: "'b list \<Rightarrow> nat \<Rightarrow> 'b list" where
  "iterator_after dataset k =
     (if k = 0 then dataset else drop (Suc ((k - 1) mod length dataset)) dataset)"

definition finder_after ::
  "(nat \<Rightarrow> 'b \<Rightarrow> pyfloat) \<Rightarrow> (nat \<Rightarrow> pyfloat) \<Rightarrow> 'b list \<Rightarrow> nat \<Rightarrow> 'b finder" where
  "finder_after loss_of lr_of dataset k =
     \<lparr>history_lr = map lr_of [0..<k],
      history_loss = map (smoothed (loss_at loss_of dataset)) [0..<k],
      best_loss = (if k = 0 then None else Some (best_smoothed (loss_at loss_of dataset) (k - 1))),
      iterator = iterator_after dataset k\<rparr>"

subsection \<open>Example inputs\<close>

text \<open>
  A trainer's executor after the optimizer and the scheduler have been created, with a
  checkpoint path configured, and two checkpoint files: one as \<open>Trainer.save\<close> writes
  it, one that only holds the weights and the epoch.
\<close>

definition example_config :: config where
  "example_config =
     \<lparr>checkpoint_path = Some ''run/checkpoint.3.pt'', is_finetuning = False, epochs = 5,
      overwrite_checkpoint = False, output_path = ''run'', target_metric = ''accuracy'',
      probe_layer = None\<rparr>"

definition example_executor :: executor where
  "example_executor =
     \<lparr>conf = example_config, network = StateV 0, network_is_ensemble = False,
      optimizer = Some (StateV 1), scheduler = Some (StateV 2), start_epoch = IntV 0\<rparr>"

definition full_checkpoint :: info where
  "full_checkpoint =
     [''epoch'' \<mapsto> IntV 3, ''model'' \<mapsto> StateV 10, ''optimizer'' \<mapsto> StateV 11,
      ''scheduler'' \<mapsto> StateV 12]"

definition partial_checkpoint :: info where
  "partial_checkpoint = [''epoch'' \<mapsto> IntV 3, ''model'' \<mapsto> StateV 10]"

definition example_trainer :: trainer where
  "example_trainer = \<lparr>exec = example_executor, written = [], logs = [], trained = []\<rparr>"

text \<open>
  A predictor with a probe layer configured, and two batches: one of tensors with an
  auxiliary field, one that also holds a list mixing a tensor with another object and a
  mapping.
\<close>

definition example_predictor :: predictor where
  "example_predictor =
     \<lparr>pexec = example_executor\<lparr>conf := example_config\<lparr>probe_layer := Some ''encoder''\<rparr>\<rparr>,
      probe = None, debug_log = []\<rparr>"

definition example_batch :: batch where
  "example_batch =
     \<lparr>inputs = [(''graph'', PyData Cpu 1), (''features'', PyTensor Cpu 2), (''id'', PyOther 3)],
      outputs = PyTensor Cpu 0\<rparr>"

definition mixed_batch :: batch where
  "mixed_batch =
     \<lparr>inputs = [(''features'', PyTensor Cpu 2),
                (''views'', PyList [PyTensor Cpu 4, PyOther 5]),
                (''graph'', PyDict [(''x'', PyTensor Cpu 6), (''name'', PyOther 7)]),
                (''id'', PyOther 3)],
      outputs = PyTensor Cpu 0\<rparr>"


declare exponent_down.simps [simp del]
declare exponent_up.simps [simp del]
declare py_range.simps [simp del]
declare str_nat.simps [simp del]
declare dict_to_device.simps [simp del]

section \<open>Properties\<close>

subsection \<open>Loading a checkpoint\<close>

lemma load_checkpoint_raises_iff:
  "(\<exists>e. load_checkpoint fs train ex = Inl e) \<longleftrightarrow>
     (case checkpoint_path (conf ex) of
        None \<Rightarrow> True
      | Some p \<Rightarrow> (case fs p of None \<Rightarrow> True | Some ck \<Rightarrow> ck ''model'' = None))"
  by (auto simp: load_checkpoint_def network_load_checkpoint_def torch_load_def Let_def
           split: option.splits sum.splits)

text \<open>
  C3. A call of \<open>_load_checkpoint(train)\<close> on an existing checkpoint returns, and
  the network weights are then those of the checkpoint. The optimizer state, the
  scheduler state and the resume epoch are left as they were unless \<open>train\<close> is true
  and the configuration is not in fine-tuning mode, and each of them is left as it was
  when its key is absent from the checkpoint. With \<open>train\<close> true and no fine-tuning,
  each is restored when its key is present (for the optimizer and the scheduler, when
  the executor has one).
\<close>

theorem load_checkpoint_restores:
  assumes "checkpoint_path (conf ex) = Some p" and "fs p = Some ck" and "ck ''model'' = Some w"
  shows "\<exists>ex'. load_checkpoint fs train ex = Inr ex'
           \<and> network ex' = w
           \<and> (\<not> (train \<and> \<not> is_finetuning (conf ex)) \<longrightarrow>
                optimizer ex' = optimizer ex \<and> scheduler ex' = scheduler ex
                \<and> start_epoch ex' = start_epoch ex)
           \<and> (ck ''optimizer'' = None \<longrightarrow> optimizer ex' = optimizer ex)
           \<and> (ck ''scheduler'' = None \<longrightarrow> scheduler ex' = scheduler ex)
           \<and> (ck ''epoch'' = None \<longrightarrow> start_epoch ex' = start_epoch ex)
           \<and> (train \<and> \<not> is_finetuning (conf ex) \<longrightarrow>
                (ck ''optimizer'' \<noteq> None \<and> optimizer ex \<noteq> None \<longrightarrow> optimizer_restored ck ex')
                \<and> (ck ''scheduler'' \<noteq> None \<and> scheduler ex \<noteq> None \<longrightarrow> scheduler_restored ck ex')
                \<and> (ck ''epoch'' \<noteq> None \<longrightarrow> epoch_restored ck ex'))"
  using assms
  by (auto simp: load_checkpoint_def network_load_checkpoint_def torch_load_def Let_def
        restore_optimizer_def restore_scheduler_def restore_epoch_def
        optimizer_restored_def scheduler_restored_def epoch_restored_def
           split: option.splits)

theorem load_checkpoint_restores_witness:
  "\<exists>ex'. load_checkpoint [''run/checkpoint.3.pt'' \<mapsto> full_checkpoint] True example_executor = Inr ex'
         \<and> network ex' = StateV 10
         \<and> optimizer_restored full_checkpoint ex'
         \<and> scheduler_restored full_checkpoint ex'
         \<and> epoch_restored full_checkpoint ex'"
  using load_checkpoint_restores [of example_executor "''run/checkpoint.3.pt''"
      "[''run/checkpoint.3.pt'' \<mapsto> full_checkpoint]" full_checkpoint "StateV 10" True]
  by (simp add: example_executor_def example_config_def full_checkpoint_def)

text \<open>
  C4, as stated: after every load either all three of start epoch, optimizer state and
  scheduler state are restored, or none of them is. It fails on a checkpoint that holds
  the epoch but neither the optimizer nor the scheduler state: the epoch alone is
  restored.
\<close>

theorem load_checkpoint_atomic_counterexample:
  "\<not> (\<forall>fs train ex ex' p ck.
        load_checkpoint fs train ex = Inr ex' \<and> checkpoint_path (conf ex) = Some p \<and> fs p = Some ck \<longrightarrow>
          (optimizer_restored ck ex' \<and> scheduler_restored ck ex' \<and> epoch_restored ck ex')
          \<or> (\<not> optimizer_restored ck ex' \<and> \<not> scheduler_restored ck ex' \<and> \<not> epoch_restored ck ex'))"
proof
  assume all: "\<forall>fs train ex ex' p ck.
        load_checkpoint fs train ex = Inr ex' \<and> checkpoint_path (conf ex) = Some p \<and> fs p = Some ck \<longrightarrow>
          (optimizer_restored ck ex' \<and> scheduler_restored ck ex' \<and> epoch_restored ck ex')
          \<or> (\<not> optimizer_restored ck ex' \<and> \<not> scheduler_restored ck ex' \<and> \<not> epoch_restored ck ex')"
  let ?fs = "[''run/checkpoint.3.pt'' \<mapsto> partial_checkpoint]"
  let ?ex' = "example_executor\<lparr>network := StateV 10, start_epoch := IntV 3\<rparr>"
  have run: "load_checkpoint ?fs True example_executor = Inr ?ex'"
    by (simp add: load_checkpoint_def network_load_checkpoint_def torch_load_def Let_def
          restore_optimizer_def restore_scheduler_def restore_epoch_def
          example_executor_def example_config_def partial_checkpoint_def)
  have path: "checkpoint_path (conf example_executor) = Some ''run/checkpoint.3.pt''"
    by (simp add: example_executor_def example_config_def)
  have restored: "epoch_restored partial_checkpoint ?ex'"
    by (simp add: epoch_restored_def partial_checkpoint_def)
  have not_restored: "\<not> optimizer_restored partial_checkpoint ?ex'"
    by (simp add: optimizer_restored_def partial_checkpoint_def)
  from all run path have
    "(optimizer_restored partial_checkpoint ?ex' \<and> scheduler_restored partial_checkpoint ?ex'
        \<and> epoch_restored partial_checkpoint ?ex')
     \<or> (\<not> optimizer_restored partial_checkpoint ?ex' \<and> \<not> scheduler_restored partial_checkpoint ?ex'
        \<and> \<not> epoch_restored partial_checkpoint ?ex')"
    by (metis fun_upd_same)
  with restored not_restored show False by blast
qed

text \<open>
  C4, amended. For a checkpoint that holds all three keys, loaded into an executor that
  has an optimizer and a scheduler, the three are restored together when \<open>train\<close> is
  true and the configuration is not in fine-tuning mode, and none of them is touched
  otherwise.
\<close>

theorem load_checkpoint_all_or_none:
  assumes "load_checkpoint fs train ex = Inr ex'"
    and "checkpoint_path (conf ex) = Some p" and "fs p = Some ck"
    and "ck ''optimizer'' \<noteq> None" and "ck ''scheduler'' \<noteq> None" and "ck ''epoch'' \<noteq> None"
    and "optimizer ex \<noteq> None" and "scheduler ex \<noteq> None"
  shows "(train \<and> \<not> is_finetuning (conf ex)
            \<and> optimizer_restored ck ex' \<and> scheduler_restored ck ex' \<and> epoch_restored ck ex')
         \<or> (\<not> (train \<and> \<not> is_finetuning (conf ex))
            \<and> optimizer ex' = optimizer ex \<and> scheduler ex' = scheduler ex
            \<and> start_epoch ex' = start_epoch ex)"
  using assms
  by (auto simp: load_checkpoint_def network_load_checkpoint_def torch_load_def Let_def
        restore_optimizer_def restore_scheduler_def restore_epoch_def
        optimizer_restored_def scheduler_restored_def epoch_restored_def
           split: option.splits if_splits)

theorem load_checkpoint_all_or_none_witness:
  "optimizer_restored full_checkpoint
     (example_executor\<lparr>network := StateV 10, optimizer := Some (StateV 11),
        scheduler := Some (StateV 12), start_epoch := IntV 3\<rparr>)
   \<and> scheduler_restored full_checkpoint
     (example_executor\<lparr>network := StateV 10, optimizer := Some (StateV 11),
        scheduler := Some (StateV 12), start_epoch := IntV 3\<rparr>)
   \<and> epoch_restored full_checkpoint
     (example_executor\<lparr>network := StateV 10, optimizer := Some (StateV 11),
        scheduler := Some (StateV 12), start_epoch := IntV 3\<rparr>)"
proof -
  let ?fs = "[''run/checkpoint.3.pt'' \<mapsto> full_checkpoint]"
  let ?ex' = "example_executor\<lparr>network := StateV 10, optimizer := Some (StateV 11),
        scheduler := Some (StateV 12), start_epoch := IntV 3\<rparr>"
  have run: "load_checkpoint ?fs True example_executor = Inr ?ex'"
    by (simp add: load_checkpoint_def network_load_checkpoint_def torch_load_def Let_def
          restore_optimizer_def restore_scheduler_def restore_epoch_def
          example_executor_def example_config_def full_checkpoint_def)
  have path: "checkpoint_path (conf example_executor) = Some ''run/checkpoint.3.pt''"
    by (simp add: example_executor_def example_config_def)
  have stored: "?fs ''run/checkpoint.3.pt'' = Some full_checkpoint"
    by simp
  have keys: "full_checkpoint ''optimizer'' \<noteq> None" "full_checkpoint ''scheduler'' \<noteq> None"
    "full_checkpoint ''epoch'' \<noteq> None"
    by (simp_all add: full_checkpoint_def)
  have has: "optimizer example_executor \<noteq> None" "scheduler example_executor \<noteq> None"
    by (simp_all add: example_executor_def)
  have mode: "\<not> \<not> (True \<and> \<not> is_finetuning (conf example_executor))"
    by (simp add: example_executor_def example_config_def)
  from load_checkpoint_all_or_none [OF run path stored keys has] mode
  show ?thesis by blast
qed

subsection \<open>Trainer\<close>

lemma py_range_upto: "py_range a b = [a..b - 1]"
proof (induction a b rule: py_range.induct)
  case (1 a b)
  show ?case
  proof (cases "a < b")
    case True
    then have "[a..b - 1] = a # [a + 1..b - 1]" by (simp add: upto_rec1)
    with True 1 show ?thesis by (simp add: py_range.simps [of a b])
  next
    case False
    then show ?thesis by (simp add: py_range.simps [of a b])
  qed
qed

lemma fgt_step:
  "b \<noteq> NaN \<Longrightarrow> fgt x (if fgt t b then t else b) \<longleftrightarrow> fgt x b \<and> (t \<noteq> NaN \<longrightarrow> fgt x t)"
  by (cases x; cases t; cases b) auto

lemma fgt_NaN_right [simp]: "fgt a NaN = False"
  by (cases a) auto

lemma save_eq:
  assumes "optimizer (exec tr) = Some opt" and "scheduler (exec tr) = Some sch"
  shows "save observers epoch tr
           = Inr (tr\<lparr>written := written tr @
                   [(checkpoint_file (conf (exec tr)) epoch,
                     dispatch_event observers (checkpoint_contents epoch (exec tr)))]\<rparr>)"
proof -
  have "[''epoch'' \<mapsto> IntV epoch, ''model'' \<mapsto> network (exec tr),
         ''optimizer'' \<mapsto> opt, ''scheduler'' \<mapsto> sch] = checkpoint_contents epoch (exec tr)"
    using assms by (auto simp: checkpoint_contents_def fun_eq_iff)
  with assms show ?thesis
    by (simp add: save_def checkpoint_file_def Let_def)
qed

lemma check_best_no_validation:
  assumes "optimizer (exec tr) = Some opt" and "scheduler (exec tr) = Some sch"
  shows "check_best observers epoch [] b tr
           = Inr (b, True, tr\<lparr>written := written tr @
                   [(checkpoint_file (conf (exec tr)) epoch,
                     dispatch_event observers (checkpoint_contents epoch (exec tr)))]\<rparr>)"
  by (simp add: check_best_def save_eq [OF assms])

lemma check_best_validated:
  assumes "optimizer (exec tr) = Some opt" and "scheduler (exec tr) = Some sch"
    and "target_value (target_metric (conf (exec tr))) vm = Some t"
  shows "check_best observers epoch vm b tr
           = Inr (if fgt t b then t else b, fgt t b,
                  if fgt t b
                  then tr\<lparr>written := written tr @
                   [(checkpoint_file (conf (exec tr)) epoch,
                     dispatch_event observers (checkpoint_contents epoch (exec tr)))]\<rparr>
                  else tr)"
proof -
  from assms(3) have ne: "vm \<noteq> []"
    by (auto simp: target_value_def)
  from assms(3) obtain vs where "map_of vm (target_metric (conf (exec tr))) = Some (t # vs)"
    by (auto simp: target_value_def split: option.splits list.splits)
  with ne show ?thesis
    by (simp add: check_best_def save_eq [OF assms(1,2)])
qed

lemma train_epoch_fields:
  "conf (exec (train_epoch learn e tr)) = conf (exec tr)"
  "optimizer (exec (train_epoch learn e tr)) \<noteq> None"
  "scheduler (exec (train_epoch learn e tr)) \<noteq> None"
  "written (train_epoch learn e tr) = written tr"
  "logs (train_epoch learn e tr) = logs tr"
  "trained (train_epoch learn e tr) = trained tr @ [e]"
  by (simp_all add: train_epoch_def split: prod.splits)

lemma check_best_target:
  assumes "check_best observers e vm b tr = Inr r" and "vm \<noteq> []"
  shows "\<exists>t. target_value (target_metric (conf (exec tr))) vm = Some t"
  using assms
  by (auto simp: check_best_def target_value_def split: option.splits list.splits)

lemma new_best_flags_empty:
  "new_best_flags prev (map (\<lambda>x. None) xs) = map (\<lambda>x. True) xs"
  by (induction xs) simp_all

lemma epoch_loop_flags:
  assumes "epoch_loop learn averages observers val_loader es b tr = Inr (b', tr')"
    and "b \<noteq> NaN" and "\<forall>x. fgt x b \<longleftrightarrow> exceeds_all x prev"
  shows "\<exists>entries. logs tr' = logs tr @ entries \<and> map fst entries = es
           \<and> map (\<lambda>x. fst (snd x)) entries = map (\<lambda>e. validation averages val_loader e) es
           \<and> (\<forall>x \<in> set entries. fst (snd x) \<noteq> [] \<longrightarrow>
                 target_value (target_metric (conf (exec tr))) (fst (snd x)) \<noteq> None)
           \<and> map (\<lambda>x. snd (snd x)) entries
               = new_best_flags prev
                   (map (\<lambda>x. target_value (target_metric (conf (exec tr))) (fst (snd x))) entries)
           \<and> map fst (written tr')
               = map fst (written tr)
                 @ map (\<lambda>x. checkpoint_file (conf (exec tr)) (fst x)) (filter (\<lambda>x. snd (snd x)) entries)
           \<and> conf (exec tr') = conf (exec tr)"
  using assms
proof (induction es arbitrary: b tr prev)
  case Nil
  then show ?case by simp
next
  case (Cons e es)
  let ?m = "target_metric (conf (exec tr))"
  let ?vm = "validation averages val_loader e"
  let ?tr1 = "train_epoch learn e tr"
  obtain opt sch where os: "optimizer (exec ?tr1) = Some opt" "scheduler (exec ?tr1) = Some sch"
    using train_epoch_fields(2,3) [of learn e tr] by auto
  let ?saved = "?tr1\<lparr>written := written ?tr1 @
                   [(checkpoint_file (conf (exec ?tr1)) e,
                     dispatch_event observers (checkpoint_contents e (exec ?tr1)))]\<rparr>"
  show ?case
  proof (cases "?vm = []")
    case True
    let ?tr3 = "?saved\<lparr>logs := logs ?saved @ [(e, [], True)]\<rparr>"
    from Cons.prems(1) True have loop:
      "epoch_loop learn averages observers val_loader es b ?tr3 = Inr (b', tr')"
      by (simp add: Let_def check_best_no_validation [OF os] log_epoch_def)
    have c3: "conf (exec ?tr3) = conf (exec tr)"
      by (simp add: train_epoch_fields)
    have l3: "logs ?tr3 = logs tr @ [(e, [], True)]"
      by (simp add: train_epoch_fields)
    have w3: "map fst (written ?tr3) = map fst (written tr) @ [checkpoint_file (conf (exec tr)) e]"
      by (simp add: train_epoch_fields)
    from Cons.IH [OF loop Cons.prems(2) Cons.prems(3)] obtain entries where
      ih: "logs tr' = logs ?tr3 @ entries" "map fst entries = es"
        "map (\<lambda>x. fst (snd x)) entries = map (\<lambda>e. validation averages val_loader e) es"
        "\<forall>x \<in> set entries. fst (snd x) \<noteq> [] \<longrightarrow>
           target_value (target_metric (conf (exec ?tr3))) (fst (snd x)) \<noteq> None"
        "map (\<lambda>x. snd (snd x)) entries
           = new_best_flags prev
               (map (\<lambda>x. target_value (target_metric (conf (exec ?tr3))) (fst (snd x))) entries)"
        "map fst (written tr')
           = map fst (written ?tr3)
             @ map (\<lambda>x. checkpoint_file (conf (exec ?tr3)) (fst x)) (filter (\<lambda>x. snd (snd x)) entries)"
        "conf (exec tr') = conf (exec ?tr3)"
      by blast
    have none: "target_value ?m [] = None"
      by (simp add: target_value_def)
    show ?thesis
      apply (rule exI [of _ "(e, [], True) # entries"])
      using ih l3 w3 none True unfolding c3 by simp
  next
    case False
    from Cons.prems(1) obtain r where
      "check_best observers e ?vm b ?tr1 = Inr r"
      by (auto simp: Let_def split: sum.splits)
    from check_best_target [OF this False] obtain t where
      t1: "target_value (target_metric (conf (exec ?tr1))) ?vm = Some t"
      by blast
    then have t: "target_value ?m ?vm = Some t"
      by (simp add: train_epoch_fields)
    let ?b1 = "if fgt t b then t else b"
    let ?tr2 = "if fgt t b then ?saved else ?tr1"
    let ?tr3 = "?tr2\<lparr>logs := logs ?tr2 @ [(e, ?vm, fgt t b)]\<rparr>"
    from Cons.prems(1) have loop:
      "epoch_loop learn averages observers val_loader es ?b1 ?tr3 = Inr (b', tr')"
      by (simp add: Let_def check_best_validated [OF os t1] log_epoch_def split: if_splits)
    have c3: "conf (exec ?tr3) = conf (exec tr)"
      by (simp add: train_epoch_fields)
    have l3: "logs ?tr3 = logs tr @ [(e, ?vm, fgt t b)]"
      by (simp add: train_epoch_fields)
    have w3: "map fst (written ?tr3)
                = map fst (written tr) @ (if fgt t b then [checkpoint_file (conf (exec tr)) e] else [])"
      by (simp add: train_epoch_fields)
    have b1: "?b1 \<noteq> NaN"
      using Cons.prems(2) by (cases t) auto
    have summary: "\<forall>x. fgt x ?b1 \<longleftrightarrow> exceeds_all x (prev @ [t])"
    proof
      fix x
      have "fgt x ?b1 \<longleftrightarrow> fgt x b \<and> (t \<noteq> NaN \<longrightarrow> fgt x t)"
        by (rule fgt_step [OF Cons.prems(2)])
      also have "\<dots> \<longleftrightarrow> exceeds_all x prev \<and> (t \<noteq> NaN \<longrightarrow> fgt x t)"
        using Cons.prems(3) by simp
      also have "\<dots> \<longleftrightarrow> exceeds_all x (prev @ [t])"
        by (auto simp: exceeds_all_def)
      finally show "fgt x ?b1 \<longleftrightarrow> exceeds_all x (prev @ [t])" .
    qed
    from Cons.IH [OF loop b1 summary] obtain entries where
      ih: "logs tr' = logs ?tr3 @ entries" "map fst entries = es"
        "map (\<lambda>x. fst (snd x)) entries = map (\<lambda>e. validation averages val_loader e) es"
        "\<forall>x \<in> set entries. fst (snd x) \<noteq> [] \<longrightarrow>
           target_value (target_metric (conf (exec ?tr3))) (fst (snd x)) \<noteq> None"
        "map (\<lambda>x. snd (snd x)) entries
           = new_best_flags (prev @ [t])
               (map (\<lambda>x. target_value (target_metric (conf (exec ?tr3))) (fst (snd x))) entries)"
        "map fst (written tr')
           = map fst (written ?tr3)
             @ map (\<lambda>x. checkpoint_file (conf (exec ?tr3)) (fst x)) (filter (\<lambda>x. snd (snd x)) entries)"
        "conf (exec tr') = conf (exec ?tr3)"
      by blast
    have flag: "fgt t b \<longleftrightarrow> exceeds_all t prev"
      using Cons.prems(3) by simp
    show ?thesis
      apply (rule exI [of _ "(e, ?vm, fgt t b) # entries"])
      using ih l3 w3 t flag unfolding c3 by simp
  qed
qed

lemma load_checkpoint_conf:
  "load_checkpoint fs train ex = Inr ex' \<Longrightarrow> conf ex' = conf ex"
  by (auto simp: load_checkpoint_def Let_def restore_optimizer_def restore_scheduler_def
        restore_epoch_def split: sum.splits if_splits option.splits)

lemma setup_trainer_fields:
  assumes "setup_trainer fs opt0 sch0 tr = Inr tr0"
  shows "conf (exec tr0) = conf (exec tr)" and "logs tr0 = logs tr" and "written tr0 = written tr"
    and "trained tr0 = trained tr"
  using assms
  by (auto simp: setup_trainer_def Let_def dest!: load_checkpoint_conf split: sum.splits if_splits)

lemma check_best_logs:
  assumes "check_best observers e vm b tr = Inr (b', nb, tr')"
  shows "logs tr' = logs tr" and "trained tr' = trained tr"
  using assms
  by (auto simp: check_best_def save_def Let_def split: sum.splits if_splits option.splits list.splits)

lemma epoch_loop_epochs:
  assumes "epoch_loop learn averages observers val_loader es b tr = Inr (b', tr')"
  shows "trained tr' = trained tr @ es \<and> (\<exists>entries. logs tr' = logs tr @ entries \<and> map fst entries = es)"
  using assms
proof (induction es arbitrary: b tr)
  case Nil
  then show ?case by simp
next
  case (Cons e es)
  let ?vm = "validation averages val_loader e"
  from Cons.prems obtain b1 nb tr2 tr3 where
    cb: "check_best observers e ?vm b (train_epoch learn e tr) = Inr (b1, nb, tr2)"
    and lg: "log_epoch e ?vm nb tr2 = Inr tr3"
    and loop: "epoch_loop learn averages observers val_loader es b1 tr3 = Inr (b', tr')"
    by (auto simp: Let_def split: sum.splits)
  from lg have tr3: "tr3 = tr2\<lparr>logs := logs tr2 @ [(e, ?vm, nb)]\<rparr>"
    by (simp add: log_epoch_def split: if_splits)
  from Cons.IH [OF loop] obtain entries where
    ih: "trained tr' = trained tr3 @ es" "logs tr' = logs tr3 @ entries" "map fst entries = es"
    by blast
  from check_best_logs [OF cb] have
    l3: "logs tr3 = logs tr @ [(e, ?vm, nb)]" and t3: "trained tr3 = trained tr @ [e]"
    by (simp_all add: tr3 train_epoch_fields)
  from ih(1) t3 have 1: "trained tr' = trained tr @ e # es" by simp
  from ih(2,3) l3 have 2: "\<exists>entries. logs tr' = logs tr @ entries \<and> map fst entries = e # es"
    by (intro exI [of _ "(e, ?vm, nb) # entries"]) simp
  from 1 2 show ?case by (intro conjI)
qed

lemmas run_eval =
  run_def setup_trainer_def load_checkpoint_def network_load_checkpoint_def torch_load_def
  restore_optimizer_def restore_scheduler_def restore_epoch_def Let_def
  py_range.simps validation_def train_epoch_def check_best_def save_def log_epoch_def
  dispatch_event_def example_trainer_def example_executor_def example_config_def
  full_checkpoint_def

text \<open>
  C6. A run of \<open>Trainer.run\<close> that returns has called \<open>_train_epoch\<close> for, and has
  logged, in this order, exactly the epochs from the resume epoch plus one to the
  configured epoch count, where the resume epoch is \<open>_start_epoch\<close> after \<open>_setup\<close>
  (the epoch stored in the checkpoint when one is loaded outside fine-tuning mode).
  When the resume epoch is not below the epoch count, no epoch is executed: nothing is
  trained, nothing is logged and nothing is saved.
\<close>

theorem run_epochs:
  assumes "run fs opt0 sch0 learn averages observers val_loader tr = Inr (best, tr')"
  shows "\<exists>tr0 s entries.
           setup_trainer fs opt0 sch0 tr = Inr tr0 \<and> start_epoch (exec tr0) = IntV s
           \<and> trained tr' = trained tr @ [s + 1..epochs (conf (exec tr))]
           \<and> logs tr' = logs tr @ entries
           \<and> map fst entries = [s + 1..epochs (conf (exec tr))]
           \<and> (epochs (conf (exec tr)) \<le> s \<longrightarrow>
                trained tr' = trained tr \<and> logs tr' = logs tr \<and> written tr' = written tr)
           \<and> (\<forall>p ck v. checkpoint_path (conf (exec tr)) = Some p \<and> fs p = Some ck
                  \<and> \<not> is_finetuning (conf (exec tr)) \<and> ck ''epoch'' = Some v \<longrightarrow> v = IntV s)"
proof -
  from assms obtain tr0 s where
    su: "setup_trainer fs opt0 sch0 tr = Inr tr0" and st: "start_epoch (exec tr0) = IntV s"
    and loop: "epoch_loop learn averages observers val_loader
                 (py_range (s + 1) (epochs (conf (exec tr0)) + 1)) NegInf tr0 = Inr (best, tr')"
    by (auto simp: run_def split: sum.splits pyvalue.splits)
  note f = setup_trainer_fields [OF su]
  have range: "py_range (s + 1) (epochs (conf (exec tr0)) + 1) = [s + 1..epochs (conf (exec tr))]"
    by (simp add: py_range_upto f)
  from epoch_loop_epochs [OF loop] obtain entries where
    en: "trained tr' = trained tr0 @ py_range (s + 1) (epochs (conf (exec tr0)) + 1)"
      "logs tr' = logs tr0 @ entries"
      "map fst entries = py_range (s + 1) (epochs (conf (exec tr0)) + 1)"
    by blast
  have 1: "trained tr' = trained tr @ [s + 1..epochs (conf (exec tr))]"
    using en(1) by (simp only: range) (simp only: f)
  have 2: "logs tr' = logs tr @ entries"
    using en(2) by (simp only: f)
  have 3: "map fst entries = [s + 1..epochs (conf (exec tr))]"
    using en(3) by (simp only: range)
  have 4: "epochs (conf (exec tr)) \<le> s \<longrightarrow>
             trained tr' = trained tr \<and> logs tr' = logs tr \<and> written tr' = written tr"
  proof
    assume "epochs (conf (exec tr)) \<le> s"
    with range have "py_range (s + 1) (epochs (conf (exec tr0)) + 1) = []" by simp
    with loop have "tr' = tr0" by simp
    with f show "trained tr' = trained tr \<and> logs tr' = logs tr \<and> written tr' = written tr"
      by simp
  qed
  have 5: "\<forall>p ck v. checkpoint_path (conf (exec tr)) = Some p \<and> fs p = Some ck
                  \<and> \<not> is_finetuning (conf (exec tr)) \<and> ck ''epoch'' = Some v \<longrightarrow> v = IntV s"
    using su st
    by (auto simp: setup_trainer_def load_checkpoint_def network_load_checkpoint_def torch_load_def
          Let_def restore_optimizer_def restore_scheduler_def restore_epoch_def
          split: sum.splits if_splits option.splits)
  from su st 1 2 3 4 5 show ?thesis
    by (intro exI [of _ tr0] exI [of _ s] exI [of _ entries] conjI)
qed

theorem run_epochs_witness:
  "\<exists>best tr'.
     run [''run/checkpoint.3.pt'' \<mapsto> full_checkpoint] (StateV 1) (StateV 2)
       (\<lambda>e ex. (StateV (nat e), StateV 1, StateV 2)) (\<lambda>e (loader :: unit). []) [] None
       example_trainer = Inr (best, tr')
     \<and> trained tr' = [4, 5]
     \<and> map fst (logs tr') = [4, 5]"
proof -
  let ?fs = "[''run/checkpoint.3.pt'' \<mapsto> full_checkpoint]"
  let ?learn = "\<lambda>(e :: int) (ex :: executor). (StateV (nat e), StateV 1, StateV 2)"
  let ?avg = "\<lambda>(e :: int) (loader :: unit). ([] :: namespace)"
  have "\<exists>best tr'. run ?fs (StateV 1) (StateV 2) ?learn ?avg [] None example_trainer = Inr (best, tr')"
    by (simp add: run_eval)
  then obtain best tr' where
    r: "run ?fs (StateV 1) (StateV 2) ?learn ?avg [] None example_trainer = Inr (best, tr')"
    by blast
  from run_epochs [OF r] obtain s entries where
    e: "trained tr' = trained example_trainer @ [s + 1..epochs (conf (exec example_trainer))]"
      "logs tr' = logs example_trainer @ entries"
      "map fst entries = [s + 1..epochs (conf (exec example_trainer))]"
    and res: "\<forall>p ck v. checkpoint_path (conf (exec example_trainer)) = Some p \<and> ?fs p = Some ck
                  \<and> \<not> is_finetuning (conf (exec example_trainer)) \<and> ck ''epoch'' = Some v \<longrightarrow> v = IntV s"
    by blast
  have "IntV 3 = IntV s"
    by (rule res [rule_format, of "''run/checkpoint.3.pt''" full_checkpoint])
       (simp add: example_trainer_def example_executor_def example_config_def full_checkpoint_def)
  then have s: "s = 3" by simp
  have up: "[4..5] = [4, 5 :: int]"
    by (simp add: upto_rec1)
  from e(1) s up have tr: "trained tr' = [4, 5]"
    by (simp add: example_trainer_def example_executor_def example_config_def)
  from e(2,3) s up have lg: "map fst (logs tr') = [4, 5]"
    by (simp add: example_trainer_def example_executor_def example_config_def)
  from r tr lg show ?thesis
    by (intro exI [of _ best] exI [of _ tr'] conjI)
qed

text \<open>
  C1, as stated: an epoch run with a validation loader is a new best exactly when the
  mean of its target metric is strictly greater than the best value seen so far. A run
  with a validation loader whose validation results are empty namespaces has no such
  mean, and still every one of its epochs is marked new best and saved, while the best
  value stays \<open>-inf\<close>: line 229 tests the validation result, not the loader.
\<close>

theorem run_new_best_counterexample:
  "\<exists>best tr'.
     run Map.empty (StateV 1) (StateV 2)
       (\<lambda>e ex. (StateV (nat e), StateV 1, StateV 2)) (\<lambda>e (loader :: unit). [])
       [] (Some ()) example_trainer = Inr (best, tr')
     \<and> logs tr' = [(1, [], True), (2, [], True), (3, [], True), (4, [], True), (5, [], True)]
     \<and> target_value (target_metric (conf (exec example_trainer))) [] = None
     \<and> map (\<lambda>x. name (fst x)) (written tr')
         = [''checkpoint.1.pt'', ''checkpoint.2.pt'', ''checkpoint.3.pt'', ''checkpoint.4.pt'',
            ''checkpoint.5.pt'']
     \<and> best = NegInf"
proof -
  let ?learn = "\<lambda>(e :: int) (ex :: executor). (StateV (nat e), StateV 1, StateV 2)"
  let ?avg = "\<lambda>(e :: int) (loader :: unit). ([] :: namespace)"
  have "\<exists>best tr'. run Map.empty (StateV 1) (StateV 2) ?learn ?avg [] (Some ()) example_trainer = Inr (best, tr')"
    by (simp add: run_eval)
  then obtain best tr' where
    r: "run Map.empty (StateV 1) (StateV 2) ?learn ?avg [] (Some ()) example_trainer = Inr (best, tr')"
    by blast
  have lg: "logs tr' = [(1, [], True), (2, [], True), (3, [], True), (4, [], True), (5, [], True)]"
    using r by (auto simp add: run_eval)
  have tv: "target_value (target_metric (conf (exec example_trainer))) [] = None"
    by (simp add: target_value_def)
  have names: "map (\<lambda>x. name (fst x)) (written tr')
                 = [''checkpoint.1.pt'', ''checkpoint.2.pt'', ''checkpoint.3.pt'', ''checkpoint.4.pt'',
                    ''checkpoint.5.pt'']"
    using r by (auto simp add: run_eval str_int_def str_nat.simps digit_char_def)
  have best: "best = NegInf"
    using r by (auto simp add: run_eval)
  from r lg tv names best show ?thesis
    by (intro exI [of _ best] exI [of _ tr'] conjI)
qed

text \<open>
  C1, amended. In a run of \<open>Trainer.run\<close> that returns, every epoch logs the
  validation result of that epoch and its new-best marker, and a checkpoint is saved for
  exactly the epochs marked new best. An epoch whose validation result is empty (there
  is no validation loader, or the validation computed no metric) is always marked new
  best, and leaves the best value as it is. The validation result of any other epoch
  holds a mean of the target metric, and the epoch is marked new best exactly when
  this mean is strictly greater than the best value seen so far in the run, so a tie is
  not a new best. Without a validation loader every epoch is of the first kind.
\<close>

theorem run_new_best:
  assumes "run fs opt0 sch0 learn averages observers val_loader tr = Inr (best, tr')"
  shows "\<exists>entries.
           logs tr' = logs tr @ entries
           \<and> map (\<lambda>x. fst (snd x)) entries = map (\<lambda>x. validation averages val_loader (fst x)) entries
           \<and> map fst (written tr')
               = map fst (written tr)
                 @ map (\<lambda>x. checkpoint_file (conf (exec tr)) (fst x)) (filter (\<lambda>x. snd (snd x)) entries)
           \<and> (\<forall>x \<in> set entries. fst (snd x) \<noteq> [] \<longrightarrow>
                 target_value (target_metric (conf (exec tr))) (fst (snd x)) \<noteq> None)
           \<and> map (\<lambda>x. snd (snd x)) entries
               = new_best_flags []
                   (map (\<lambda>x. if fst (snd x) = [] then None
                              else target_value (target_metric (conf (exec tr))) (fst (snd x))) entries)
           \<and> (val_loader = None \<longrightarrow> (\<forall>x \<in> set entries. fst (snd x) = [] \<and> snd (snd x)))"
proof -
  from assms(1) obtain tr0 s where
    su: "setup_trainer fs opt0 sch0 tr = Inr tr0" and st: "start_epoch (exec tr0) = IntV s"
    and loop: "epoch_loop learn averages observers val_loader
                 (py_range (s + 1) (epochs (conf (exec tr0)) + 1)) NegInf tr0 = Inr (best, tr')"
    by (auto simp: run_def split: sum.splits pyvalue.splits)
  note f = setup_trainer_fields [OF su]
  let ?es = "py_range (s + 1) (epochs (conf (exec tr0)) + 1)"
  let ?c = "conf (exec tr)"
  let ?tv = "\<lambda>x :: int \<times> namespace \<times> bool. target_value (target_metric ?c) (fst (snd x))"
  have summary: "\<forall>x. fgt x NegInf \<longleftrightarrow> exceeds_all x []"
    by (simp add: exceeds_all_def)
  from epoch_loop_flags [OF loop _ summary] obtain entries where
    en: "logs tr' = logs tr0 @ entries" "map fst entries = ?es"
      "map (\<lambda>x. fst (snd x)) entries = map (\<lambda>e. validation averages val_loader e) ?es"
      "\<forall>x \<in> set entries. fst (snd x) \<noteq> [] \<longrightarrow>
         target_value (target_metric (conf (exec tr0))) (fst (snd x)) \<noteq> None"
      "map (\<lambda>x. snd (snd x)) entries
         = new_best_flags []
             (map (\<lambda>x. target_value (target_metric (conf (exec tr0))) (fst (snd x))) entries)"
      "map fst (written tr')
         = map fst (written tr0)
           @ map (\<lambda>x. checkpoint_file (conf (exec tr0)) (fst x)) (filter (\<lambda>x. snd (snd x)) entries)"
    by auto
  have 1: "logs tr' = logs tr @ entries"
    using en(1) by (simp only: f)
  have "map (\<lambda>x. validation averages val_loader (fst x)) entries
          = map (\<lambda>e. validation averages val_loader e) (map fst entries)"
    by (simp add: comp_def)
  with en(2,3) have 2:
    "map (\<lambda>x. fst (snd x)) entries = map (\<lambda>x. validation averages val_loader (fst x)) entries"
    by simp
  have 3: "map fst (written tr')
             = map fst (written tr)
               @ map (\<lambda>x. checkpoint_file ?c (fst x)) (filter (\<lambda>x. snd (snd x)) entries)"
    using en(6) by (simp only: f)
  have 4: "\<forall>x \<in> set entries. fst (snd x) \<noteq> [] \<longrightarrow> ?tv x \<noteq> None"
    using en(4) by (simp only: f)
  have tv: "(if fst (snd x) = [] then None else ?tv x) = ?tv x" for x
    by (simp add: target_value_def)
  have 5: "map (\<lambda>x. snd (snd x)) entries
             = new_best_flags [] (map (\<lambda>x. if fst (snd x) = [] then None else ?tv x) entries)"
    using en(5) by (simp only: f tv)
  have 6: "val_loader = None \<longrightarrow> (\<forall>x \<in> set entries. fst (snd x) = [] \<and> snd (snd x))"
  proof
    assume none: "val_loader = None"
    from 2 have "\<forall>x \<in> set entries. fst (snd x) = validation averages val_loader (fst x)"
      by (simp only: map_eq_conv)
    with none have empty: "\<forall>x \<in> set entries. fst (snd x) = []"
      by (simp add: validation_def)
    then have "map (\<lambda>x. if fst (snd x) = [] then None else ?tv x) entries
                 = map (\<lambda>x. None) entries"
      by (simp only: map_eq_conv) simp
    with 5 have "map (\<lambda>x. snd (snd x)) entries = map (\<lambda>x. True) entries"
      by (simp only: new_best_flags_empty)
    then have "\<forall>x \<in> set entries. snd (snd x) = True"
      by (simp only: map_eq_conv)
    with empty show "\<forall>x \<in> set entries. fst (snd x) = [] \<and> snd (snd x)"
      by simp
  qed
  from 1 2 3 4 5 6 show ?thesis
    by (intro exI [of _ entries] conjI)
qed

theorem run_new_best_witness:
  "\<exists>best tr'.
     run Map.empty (StateV 1) (StateV 2)
       (\<lambda>e ex. (StateV (nat e), StateV 1, StateV 2))
       (\<lambda>e (loader :: unit).
          if e = 2 then []
          else [(''accuracy'', [Finite (if e = 1 then 0.5 else if e = 3 then 0.5
                                        else if e = 4 then 0.75 else 0.25)])])
       [] (Some ()) example_trainer = Inr (best, tr')
     \<and> map (\<lambda>x. snd (snd x)) (logs tr') = [True, True, False, True, False]
     \<and> map (\<lambda>x. name (fst x)) (written tr') = [''checkpoint.1.pt'', ''checkpoint.2.pt'', ''checkpoint.4.pt'']"
proof -
  let ?learn = "\<lambda>(e :: int) (ex :: executor). (StateV (nat e), StateV 1, StateV 2)"
  let ?avg = "\<lambda>(e :: int) (loader :: unit).
          if e = 2 then []
          else [(''accuracy'', [Finite (if e = 1 then 0.5 else if e = 3 then 0.5
                                        else if e = 4 then 0.75 else 0.25)])]"
  have "\<exists>best tr'. run Map.empty (StateV 1) (StateV 2) ?learn ?avg [] (Some ()) example_trainer = Inr (best, tr')"
    by (simp add: run_eval)
  then obtain best tr' where
    r: "run Map.empty (StateV 1) (StateV 2) ?learn ?avg [] (Some ()) example_trainer = Inr (best, tr')"
    by blast
  from run_new_best [OF r] obtain entries where
    e: "logs tr' = logs example_trainer @ entries"
      "map (\<lambda>x. snd (snd x)) entries
         = new_best_flags []
             (map (\<lambda>x. if fst (snd x) = [] then None
                        else target_value (target_metric (conf (exec example_trainer))) (fst (snd x)))
                entries)"
    by blast
  from e(1) have ent: "entries = logs tr'"
    by (simp add: example_trainer_def)
  have vms: "map (\<lambda>x. fst (snd x)) (logs tr')
               = [[(''accuracy'', [Finite 0.5])], [], [(''accuracy'', [Finite 0.5])],
                  [(''accuracy'', [Finite 0.75])], [(''accuracy'', [Finite 0.25])]]"
    using r by (auto simp add: run_eval)
  have "map (\<lambda>x. if fst (snd x) = [] then None
                  else target_value (target_metric (conf (exec example_trainer))) (fst (snd x))) entries
          = map (\<lambda>vm. if vm = [] then None else target_value ''accuracy'' vm)
              (map (\<lambda>x. fst (snd x)) entries)"
    by (simp add: comp_def example_trainer_def example_executor_def example_config_def)
  also have "\<dots> = [Some (Finite 0.5), None, Some (Finite 0.5), Some (Finite 0.75), Some (Finite 0.25)]"
    by (simp add: ent vms target_value_def)
  finally have "map (\<lambda>x. snd (snd x)) entries
                  = new_best_flags []
                      [Some (Finite 0.5), None, Some (Finite 0.5), Some (Finite 0.75), Some (Finite 0.25)]"
    using e(2) by simp
  then have flags: "map (\<lambda>x. snd (snd x)) (logs tr') = [True, True, False, True, False]"
    by (simp add: ent exceeds_all_def)
  have names: "map (\<lambda>x. name (fst x)) (written tr')
                 = [''checkpoint.1.pt'', ''checkpoint.2.pt'', ''checkpoint.4.pt'']"
    using r by (auto simp add: run_eval str_int_def str_nat.simps digit_char_def)
  from r flags names show ?thesis
    by (intro exI [of _ best] exI [of _ tr'] conjI)
qed

text \<open>
  C7, as stated: every checkpoint that \<open>Trainer.save\<close> saves contains exactly the
  four entries. The mapping goes through the \<open>before_checkpoint_save\<close> observers
  before it is written, and an observer that adds an entry to it changes what is saved.
\<close>

theorem save_exact_keys_counterexample:
  "\<not> (\<forall>observers epoch tr tr'.
        save observers epoch tr = Inr tr' \<longrightarrow>
          dom (snd (last (written tr'))) = {''epoch'', ''model'', ''optimizer'', ''scheduler''})"
proof
  assume all: "\<forall>observers epoch tr tr'.
        save observers epoch tr = Inr tr' \<longrightarrow>
          dom (snd (last (written tr'))) = {''epoch'', ''model'', ''optimizer'', ''scheduler''}"
  let ?obs = "[\<lambda>info :: info. info(''anchor'' \<mapsto> StateV 7)]"
  let ?saved = "[''epoch'' \<mapsto> IntV 4, ''model'' \<mapsto> StateV 0, ''optimizer'' \<mapsto> StateV 1,
                 ''scheduler'' \<mapsto> StateV 2, ''anchor'' \<mapsto> StateV 7]"
  let ?tr' = "example_trainer\<lparr>written := [(\<lparr>parent = ''run'', name = ''checkpoint.4.pt''\<rparr>, ?saved)]\<rparr>"
  have "save ?obs 4 example_trainer = Inr ?tr'"
    by (simp add: save_def dispatch_event_def Let_def example_trainer_def example_executor_def
          example_config_def str_int_def str_nat.simps digit_char_def)
  with all have "dom (snd (last (written ?tr'))) = {''epoch'', ''model'', ''optimizer'', ''scheduler''}"
    by blast
  moreover have "''anchor'' \<in> dom (snd (last (written ?tr')))"
    by (simp add: example_trainer_def)
  ultimately have "''anchor'' \<in> {''epoch'', ''model'', ''optimizer'', ''scheduler''}"
    by (simp only:)
  then show False by simp
qed

text \<open>
  C7, amended. \<open>Trainer.save\<close> of a trainer that has an optimizer and a scheduler
  builds the mapping with exactly the epoch index and the states of the model, the
  optimizer and the scheduler, hands it to the \<open>before_checkpoint_save\<close> observers,
  and writes it as they leave it (unchanged when there is none) to the file
  \<open>checkpoint.<suffix>.pt\<close> under the output directory, with the suffix \<open>best\<close>
  when a single best file is overwritten and the epoch number otherwise.
\<close>

theorem save_writes_checkpoint:
  assumes "optimizer (exec tr) = Some opt" and "scheduler (exec tr) = Some sch"
  shows "save observers epoch tr
           = Inr (tr\<lparr>written := written tr @
                   [(checkpoint_file (conf (exec tr)) epoch,
                     dispatch_event observers (checkpoint_contents epoch (exec tr)))]\<rparr>)
         \<and> dom (checkpoint_contents epoch (exec tr)) = {''epoch'', ''model'', ''optimizer'', ''scheduler''}
         \<and> checkpoint_contents epoch (exec tr) ''epoch'' = Some (IntV epoch)
         \<and> checkpoint_contents epoch (exec tr) ''model'' = Some (network (exec tr))
         \<and> checkpoint_contents epoch (exec tr) ''optimizer'' = Some opt
         \<and> checkpoint_contents epoch (exec tr) ''scheduler'' = Some sch
         \<and> dispatch_event [] (checkpoint_contents epoch (exec tr)) = checkpoint_contents epoch (exec tr)"
proof -
  have "dom (checkpoint_contents epoch (exec tr)) = {''epoch'', ''model'', ''optimizer'', ''scheduler''}"
    using assms by (auto simp: checkpoint_contents_def dom_def split: if_splits)
  moreover have "dispatch_event [] (checkpoint_contents epoch (exec tr)) = checkpoint_contents epoch (exec tr)"
    by (simp add: dispatch_event_def)
  ultimately show ?thesis
    using assms save_eq [OF assms] by (simp add: checkpoint_contents_def)
qed

theorem save_writes_checkpoint_witness:
  "save [] 12 example_trainer
     = Inr (example_trainer\<lparr>written :=
              [(\<lparr>parent = ''run'', name = ''checkpoint.12.pt''\<rparr>,
                [''epoch'' \<mapsto> IntV 12, ''model'' \<mapsto> StateV 0, ''optimizer'' \<mapsto> StateV 1,
                 ''scheduler'' \<mapsto> StateV 2])]\<rparr>)
   \<and> name (checkpoint_file (example_config\<lparr>overwrite_checkpoint := True\<rparr>) 12) = ''checkpoint.best.pt''"
proof -
  have o: "optimizer (exec example_trainer) = Some (StateV 1)"
    and s: "scheduler (exec example_trainer) = Some (StateV 2)"
    by (simp_all add: example_trainer_def example_executor_def)
  have c: "checkpoint_contents 12 (exec example_trainer)
             = [''epoch'' \<mapsto> IntV 12, ''model'' \<mapsto> StateV 0, ''optimizer'' \<mapsto> StateV 1,
                ''scheduler'' \<mapsto> StateV 2]"
    by (auto simp: checkpoint_contents_def example_trainer_def example_executor_def fun_eq_iff)
  have f: "checkpoint_file (conf (exec example_trainer)) 12 = \<lparr>parent = ''run'', name = ''checkpoint.12.pt''\<rparr>"
    by (simp add: checkpoint_file_def example_trainer_def example_executor_def example_config_def
          str_int_def str_nat.simps digit_char_def)
  have b: "name (checkpoint_file (example_config\<lparr>overwrite_checkpoint := True\<rparr>) 12) = ''checkpoint.best.pt''"
    by (simp add: checkpoint_file_def example_config_def)
  from save_writes_checkpoint [OF o s, of "[]" 12] c f b show ?thesis
    by (simp add: dispatch_event_def example_trainer_def)
qed

subsection \<open>Pipeliner\<close>

text \<open>
  C9, as stated: for a fixed set of files the returned order is determined. The sort is
  by length only and keeps paths of equal length in the order of the directory walk, so
  two walks of the same files in different orders give different results.
\<close>

theorem find_all_checkpoints_order_counterexample:
  "\<not> (\<forall>l1 l2. distinct l1 \<and> distinct l2 \<and> set l1 = set l2 \<longrightarrow>
          find_all_checkpoints l1 = find_all_checkpoints l2)"
proof
  assume all: "\<forall>l1 l2. distinct l1 \<and> distinct l2 \<and> set l1 = set l2 \<longrightarrow>
          find_all_checkpoints l1 = find_all_checkpoints l2"
  let ?a = "''run/checkpoint.1.pt''" and ?b = "''run/checkpoint.2.pt''"
  have 1: "find_all_checkpoints [?a, ?b] = [?a, ?b]"
    by (simp add: find_all_checkpoints_def rglob_pt_def ends_with_def)
  have 2: "find_all_checkpoints [?b, ?a] = [?b, ?a]"
    by (simp add: find_all_checkpoints_def rglob_pt_def ends_with_def)
  have d1: "distinct [?a, ?b]" and d2: "distinct [?b, ?a]"
    by simp_all
  have s: "set [?a, ?b] = set [?b, ?a]"
    by (simp only: list.set insert_commute)
  from all [rule_format, of "[?a, ?b]" "[?b, ?a]"] d1 d2 s
  have "find_all_checkpoints [?a, ?b] = find_all_checkpoints [?b, ?a]"
    by (simp only: simp_thms)
  with 1 2 show False by simp
qed

lemma sort_key_unique:
  assumes "distinct xs" and "distinct ys" and "set xs = set ys" and "inj_on f (set xs)"
  shows "sort_key f xs = sort_key f ys"
proof -
  let ?r = "sort_key f xs" and ?s = "sort_key f ys"
  have "map f ?r = map f ?s"
  proof (rule sorted_distinct_set_unique)
    show "sorted (map f ?r)" "sorted (map f ?s)"
      by (simp_all add: sorted_sort_key)
    show "distinct (map f ?r)" "distinct (map f ?s)"
      using assms by (simp_all add: distinct_map)
    show "set (map f ?r) = set (map f ?s)"
      using assms by simp
  qed
  moreover have "inj_on f (set ?r \<union> set ?s)"
    using assms by simp
  ultimately show ?thesis
    by (simp add: inj_on_map_eq_map)
qed

text \<open>
  C9, amended. \<open>find_all_checkpoints\<close> returns the paths under the output directory
  that end in \<open>.pt\<close>, each as often as the walk lists it, sorted by length with the
  shorter first, and paths of equal length in the order of the walk. The result is a
  function of the walk; it is determined by the set of files alone when no two
  checkpoint paths have the same length.
\<close>

theorem find_all_checkpoints_sorted:
  "sorted (map length (find_all_checkpoints listing))
   \<and> mset (find_all_checkpoints listing) = mset (rglob_pt listing)
   \<and> set (find_all_checkpoints listing) = {p. p \<in> set listing \<and> ends_with ''.pt'' p}
   \<and> (\<forall>k. filter (\<lambda>p. length p = k) (find_all_checkpoints listing)
           = filter (\<lambda>p. length p = k) (rglob_pt listing))
   \<and> (\<forall>other. distinct listing \<and> distinct other \<and> set other = set listing
           \<and> inj_on length (set (rglob_pt listing)) \<longrightarrow>
         find_all_checkpoints other = find_all_checkpoints listing)"
proof -
  have unique: "find_all_checkpoints other = find_all_checkpoints listing"
    if "distinct listing \<and> distinct other \<and> set other = set listing
           \<and> inj_on length (set (rglob_pt listing))" for other
    unfolding find_all_checkpoints_def
  proof (rule sort_key_unique)
    show "distinct (rglob_pt other)" "distinct (rglob_pt listing)"
      using that by (simp_all add: rglob_pt_def)
    show "set (rglob_pt other) = set (rglob_pt listing)"
      using that by (simp add: rglob_pt_def)
    show "inj_on length (set (rglob_pt other))"
      using that by (simp add: rglob_pt_def)
  qed
  have 1: "sorted (map length (find_all_checkpoints listing))"
    by (simp add: find_all_checkpoints_def sorted_sort_key)
  have 2: "mset (find_all_checkpoints listing) = mset (rglob_pt listing)"
    by (simp add: find_all_checkpoints_def)
  have 3: "set (find_all_checkpoints listing) = {p. p \<in> set listing \<and> ends_with ''.pt'' p}"
    by (simp add: find_all_checkpoints_def rglob_pt_def)
  have 4: "\<forall>k. filter (\<lambda>p. length p = k) (find_all_checkpoints listing)
           = filter (\<lambda>p. length p = k) (rglob_pt listing)"
    by (simp add: find_all_checkpoints_def sort_key_stable)
  from unique have 5: "\<forall>other. distinct listing \<and> distinct other \<and> set other = set listing
           \<and> inj_on length (set (rglob_pt listing)) \<longrightarrow>
         find_all_checkpoints other = find_all_checkpoints listing"
    by (intro allI impI)
  show ?thesis
    by (intro conjI 1 2 3 4 5)
qed

theorem find_all_checkpoints_sorted_witness:
  "find_all_checkpoints [''run/checkpoint.10.pt'', ''run/logs.txt'', ''run/checkpoint.2.pt'']
     = [''run/checkpoint.2.pt'', ''run/checkpoint.10.pt'']
   \<and> find_all_checkpoints [''run/checkpoint.2.pt'', ''run/checkpoint.10.pt'', ''run/logs.txt'']
     = find_all_checkpoints [''run/checkpoint.10.pt'', ''run/logs.txt'', ''run/checkpoint.2.pt'']"
proof -
  let ?l = "[''run/checkpoint.10.pt'', ''run/logs.txt'', ''run/checkpoint.2.pt'']"
  let ?o = "[''run/checkpoint.2.pt'', ''run/checkpoint.10.pt'', ''run/logs.txt'']"
  have g: "rglob_pt ?l = [''run/checkpoint.10.pt'', ''run/checkpoint.2.pt'']"
    by (simp add: rglob_pt_def ends_with_def)
  have v: "find_all_checkpoints ?l = [''run/checkpoint.2.pt'', ''run/checkpoint.10.pt'']"
    by (simp add: find_all_checkpoints_def g)
  have d1: "distinct ?l" and d2: "distinct ?o"
    by simp_all
  have s: "set ?o = set ?l"
    by (simp only: list.set insert_commute)
  have i: "inj_on length (set (rglob_pt ?l))"
    by (simp add: g)
  note find_all_checkpoints_sorted [of ?l, THEN conjunct2, THEN conjunct2, THEN conjunct2,
      THEN conjunct2, rule_format, of ?o]
  from this d1 d2 s i
  have eq: "find_all_checkpoints ?o = find_all_checkpoints ?l"
    by (simp only: simp_thms)
  show ?thesis by (rule conjI [OF v eq])
qed


subsection \<open>Predictor\<close>

text \<open>
  C8. With a probe layer configured, \<open>Predictor.run\<close> on an ensemble network raises:
  \<open>set_hook_probe\<close> raises the \<open>ValueError\<close>, and this is the error of the run
  whenever the device transfer before it has passed. On a network that is not an
  ensemble, \<open>set_hook_probe\<close> attaches the probe and raises nothing, and the run
  returns the outputs with the probed activations.
\<close>

theorem predictor_probe:
  assumes "probe_layer (conf (pexec pr)) = Some layer"
  shows "(network_is_ensemble (pexec pr) \<longrightarrow>
            set_hook_probe pr = Inl ValueError
            \<and> (\<exists>e. predictor_run dev infer get_probe b pr = Inl e)
            \<and> (\<forall>b' lg. to_device dev b (debug_log pr) = Inr (b', lg) \<longrightarrow>
                  predictor_run dev infer get_probe b pr = Inl ValueError))
         \<and> (\<not> network_is_ensemble (pexec pr) \<longrightarrow>
            set_hook_probe pr = Inr (pr\<lparr>probe := Some (HookProbe (Some layer))\<rparr>)
            \<and> (\<forall>b' lg. to_device dev b (debug_log pr) = Inr (b', lg) \<longrightarrow>
                  predictor_run dev infer get_probe b pr
                    = Inr (pr\<lparr>debug_log := lg, probe := Some (HookProbe (Some layer))\<rparr>,
                           (infer b')(''hidden_layer'' \<mapsto> get_probe (HookProbe (Some layer)) b'))))"
  using assms
  by (auto simp: set_hook_probe_def predictor_run_def Let_def split: sum.splits prod.splits)

theorem predictor_probe_witness:
  "predictor_run (Cuda 0) (\<lambda>b. [''logits'' \<mapsto> 5]) (\<lambda>hp b. 6) example_batch
     (example_predictor\<lparr>pexec := (pexec example_predictor)\<lparr>network_is_ensemble := True\<rparr>\<rparr>)
     = Inl ValueError
   \<and> predictor_run (Cuda 0) (\<lambda>b. [''logits'' \<mapsto> 5]) (\<lambda>hp b. 6) example_batch example_predictor
     = Inr (example_predictor\<lparr>debug_log := [], probe := Some (HookProbe (Some ''encoder''))\<rparr>,
            [''logits'' \<mapsto> 5, ''hidden_layer'' \<mapsto> 6])"
proof -
  let ?ens = "example_predictor\<lparr>pexec := (pexec example_predictor)\<lparr>network_is_ensemble := True\<rparr>\<rparr>"
  let ?b' = "\<lparr>inputs = [(''graph'', PyData (Cuda 0) 1), (''features'', PyTensor (Cuda 0) 2),
                        (''id'', PyOther 3)],
             outputs = PyTensor (Cuda 0) 0\<rparr>"
  have td: "to_device (Cuda 0) example_batch [] = Inr (?b', [])"
    by (simp add: to_device_def example_batch_def)
  have p1: "probe_layer (conf (pexec ?ens)) = Some ''encoder''"
    and p2: "probe_layer (conf (pexec example_predictor)) = Some ''encoder''"
    by (simp_all add: example_predictor_def)
  have e1: "network_is_ensemble (pexec ?ens)"
    and e2: "\<not> network_is_ensemble (pexec example_predictor)"
    by (simp_all add: example_predictor_def example_executor_def)
  have l1: "debug_log ?ens = []" and l2: "debug_log example_predictor = []"
    by (simp_all add: example_predictor_def)
  from predictor_probe [OF p1, of "Cuda 0" "\<lambda>b. [''logits'' \<mapsto> 5]" "\<lambda>hp b. 6" example_batch] e1 td l1
  have a: "predictor_run (Cuda 0) (\<lambda>b. [''logits'' \<mapsto> 5]) (\<lambda>hp b. 6) example_batch ?ens = Inl ValueError"
    by simp
  from predictor_probe [OF p2, of "Cuda 0" "\<lambda>b. [''logits'' \<mapsto> 5]" "\<lambda>hp b. 6" example_batch] e2 td l2
  have b: "predictor_run (Cuda 0) (\<lambda>b. [''logits'' \<mapsto> 5]) (\<lambda>hp b. 6) example_batch example_predictor
     = Inr (example_predictor\<lparr>debug_log := [], probe := Some (HookProbe (Some ''encoder''))\<rparr>,
            [''logits'' \<mapsto> 5, ''hidden_layer'' \<mapsto> 6])"
    by simp
  show ?thesis by (rule conjI [OF a b])
qed


subsection \<open>Device transfer\<close>

lemma obj_to_has_to: "has_to v \<Longrightarrow> obj_to dev v = Inr (moved dev v)"
  by (cases v) (auto simp: has_to_def)

lemma obj_to_no_to: "\<not> has_to v \<Longrightarrow> obj_to dev v = Inl AttributeError"
  by (cases v) (auto simp: has_to_def)

lemma all_to_movable: "list_all has_to vs \<Longrightarrow> all_to dev vs = Inr (map (moved dev) vs)"
  by (induction vs) (auto simp: obj_to_has_to)

lemma all_to_unmovable: "\<not> list_all has_to vs \<Longrightarrow> all_to dev vs = Inl AttributeError"
proof (induction vs)
  case Nil
  then show ?case by simp
next
  case (Cons a as)
  show ?case
  proof (cases "has_to a")
    case True
    with Cons show ?thesis by (simp add: obj_to_has_to)
  next
    case False
    then show ?thesis by (simp add: obj_to_no_to)
  qed
qed

lemma dict_to_device_eq:
  "dict_to_device dev d = map (\<lambda>kv. (fst kv, if has_to (snd kv) then moved dev (snd kv) else snd kv)) d"
  by (subst dict_to_device.simps)
     (auto simp: type_is_parameter_def has_to_def obj_to_has_to split: sum.splits)

lemma dict_to_device_held: "list_all2 (held_rel dev) d (dict_to_device dev d)"
  by (simp add: dict_to_device_eq list_all2_map2 held_rel_def list.rel_refl)

lemma transfer_value_cases:
  assumes "v \<noteq> PyList []"
  shows "(\<not> logged_entry v \<and> (\<exists>v'. transfer_value dev v = Inr v' \<and> value_rel dev v v'))
         \<or> (logged_entry v \<and> transfer_value dev v = Inl AttributeError \<and> value_rel dev v v)"
proof (cases v)
  case (PyList vs)
  with assms obtain a as where vs: "vs = a # as" by (cases vs) auto
  show ?thesis
  proof (cases "is_tensor a")
    case True
    then have "has_to a" by (simp add: has_to_def)
    then show ?thesis
      using True PyList vs
      by (cases "list_all has_to as")
         (simp_all add: obj_to_has_to all_to_movable all_to_unmovable)
  next
    case False
    then show ?thesis using PyList vs by simp
  qed
qed (simp_all add: dict_to_device_held)


lemma to_device_items_ok:
  assumes "\<forall>kv \<in> set items. snd kv \<noteq> PyList []"
  shows "\<exists>items'. to_device_items dev items lg
             = Inr (items', lg @ replicate (length (filter (\<lambda>kv. logged_entry (snd kv)) items)) AttributeError)
           \<and> list_all2 (entry_rel dev) items items'"
  using assms
proof (induction items arbitrary: lg)
  case Nil
  then show ?case by simp
next
  case (Cons kv items)
  obtain key v where kv: "kv = (key, v)" by (cases kv)
  with Cons.prems have ne: "v \<noteq> PyList []" and rest: "\<forall>kv \<in> set items. snd kv \<noteq> PyList []"
    by auto
  let ?n = "length (filter (\<lambda>kv. logged_entry (snd kv)) items)"
  from transfer_value_cases [OF ne, of dev] show ?case
  proof (elim disjE conjE exE)
    fix v'
    assume nl: "\<not> logged_entry v" and tv: "transfer_value dev v = Inr v'" and vr: "value_rel dev v v'"
    from Cons.IH [OF rest, of lg] obtain items' where
      ih: "to_device_items dev items lg = Inr (items', lg @ replicate ?n AttributeError)"
        "list_all2 (entry_rel dev) items items'"
      by blast
    from vr have hd: "entry_rel dev (key, v) (key, v')"
      by (simp add: entry_rel_def)
    show ?thesis
      by (rule exI [of _ "(key, v') # items'"]) (simp add: kv tv ih nl hd)
  next
    assume l: "logged_entry v" and tv: "transfer_value dev v = Inl AttributeError"
      and vr: "value_rel dev v v"
    from Cons.IH [OF rest, of "lg @ [AttributeError]"] obtain items' where
      ih: "to_device_items dev items (lg @ [AttributeError])
             = Inr (items', (lg @ [AttributeError]) @ replicate ?n AttributeError)"
        "list_all2 (entry_rel dev) items items'"
      by blast
    from vr have hd: "entry_rel dev (key, v) (key, v)"
      by (simp add: entry_rel_def)
    show ?thesis
      by (rule exI [of _ "(key, v) # items'"]) (simp add: kv tv ih l hd)
  qed
qed

text \<open>
  C5, as stated: device transfer never raises, whatever the values under \<open>inputs\<close>,
  empty lists included, and every entry that cannot be moved is logged and left
  unchanged. An empty list raises \<open>IndexError\<close>, which the handler does not catch;
  and an entry that is no tensor is left unchanged without being logged.
\<close>

theorem to_device_raises_counterexample:
  "to_device (Cuda 0) \<lparr>inputs = [(''mask'', PyList [])], outputs = PyTensor Cpu 0\<rparr> [] = Inl IndexError
   \<and> to_device (Cuda 0) \<lparr>inputs = [(''id'', PyOther 3)], outputs = PyTensor Cpu 0\<rparr> []
       = Inr (\<lparr>inputs = [(''id'', PyOther 3)], outputs = PyTensor (Cuda 0) 0\<rparr>, [])"
  by (simp add: to_device_def)

text \<open>
  C5, amended. For a batch whose output is a tensor and whose inputs hold no empty list,
  device transfer returns: the output and every tensor or \<open>Data\<close> entry are on the
  device, the tensors that a mapping entry holds directly are on the device, a list
  that starts with a tensor is moved element by element when all its elements can be
  moved and is otherwise logged and left unchanged, and every other entry is left
  unchanged without a log line.
\<close>

theorem to_device_transfers:
  assumes "has_to (outputs b)" and "\<forall>kv \<in> set (inputs b). snd kv \<noteq> PyList []"
  shows "\<exists>b'. to_device dev b lg
             = Inr (b', lg @ replicate (length (filter (\<lambda>kv. logged_entry (snd kv)) (inputs b)))
                            AttributeError)
           \<and> outputs b' = moved dev (outputs b)
           \<and> list_all2 (entry_rel dev) (inputs b) (inputs b')"
proof -
  from to_device_items_ok [OF assms(2), of dev lg] obtain items' where
    it: "to_device_items dev (inputs b) lg
           = Inr (items', lg @ replicate (length (filter (\<lambda>kv. logged_entry (snd kv)) (inputs b)))
                            AttributeError)"
      "list_all2 (entry_rel dev) (inputs b) items'"
    by blast
  show ?thesis
    by (rule exI [of _ "b\<lparr>inputs := items', outputs := moved dev (outputs b)\<rparr>"])
       (simp add: to_device_def obj_to_has_to [OF assms(1)] it)
qed

theorem to_device_transfers_witness:
  "\<exists>b'. to_device (Cuda 0) mixed_batch [] = Inr (b', [AttributeError])
        \<and> outputs b' = PyTensor (Cuda 0) 0
        \<and> list_all2 (entry_rel (Cuda 0)) (inputs mixed_batch) (inputs b')
        \<and> inputs b' = [(''features'', PyTensor (Cuda 0) 2),
                        (''views'', PyList [PyTensor Cpu 4, PyOther 5]),
                        (''graph'', PyDict [(''x'', PyTensor (Cuda 0) 6), (''name'', PyOther 7)]),
                        (''id'', PyOther 3)]"
proof -
  have h1: "has_to (outputs mixed_batch)"
    by (simp add: mixed_batch_def has_to_def)
  have h2: "\<forall>kv \<in> set (inputs mixed_batch). snd kv \<noteq> PyList []"
    by (simp add: mixed_batch_def)
  have n: "length (filter (\<lambda>kv. logged_entry (snd kv)) (inputs mixed_batch)) = 1"
    by (simp add: mixed_batch_def has_to_def)
  from to_device_transfers [OF h1 h2, of "Cuda 0" "[]"] obtain b' where
    b': "to_device (Cuda 0) mixed_batch [] = Inr (b', [AttributeError])"
      "outputs b' = moved (Cuda 0) (outputs mixed_batch)"
      "list_all2 (entry_rel (Cuda 0)) (inputs mixed_batch) (inputs b')"
    unfolding n by auto
  have o: "outputs b' = PyTensor (Cuda 0) 0"
    using b'(2) by (simp add: mixed_batch_def)
  have i: "inputs b' = [(''features'', PyTensor (Cuda 0) 2),
                        (''views'', PyList [PyTensor Cpu 4, PyOther 5]),
                        (''graph'', PyDict [(''x'', PyTensor (Cuda 0) 6), (''name'', PyOther 7)]),
                        (''id'', PyOther 3)]"
    using b'(1)
    by (auto simp: to_device_def mixed_batch_def dict_to_device_eq has_to_def)
  from b'(1) o b'(3) i show ?thesis
    by (intro exI [of _ b'] conjI)
qed

subsection \<open>LearningRareFinder\<close>

lemma next_batch_cycle:
  assumes "dataset \<noteq> []"
  shows "next_batch dataset (iterator_after dataset k)
           = Inr (batch_at dataset k, iterator_after dataset (Suc k))"
proof (cases k)
  case 0
  with assms show ?thesis
    by (cases dataset) (simp_all add: next_batch_def iterator_after_def batch_at_def)
next
  case (Suc j)
  let ?n = "length dataset"
  from assms have n: "0 < ?n" by simp
  let ?m = "Suc (j mod ?n)"
  have m: "?m \<le> ?n" using n by (simp add: Suc_leI)
  show ?thesis
  proof (cases "?m = ?n")
    case True
    then have "drop ?m dataset = []" by simp
    moreover from True have "Suc j mod ?n = 0" by (simp add: mod_Suc)
    ultimately show ?thesis
      using assms Suc
      by (cases dataset) (simp_all add: next_batch_def iterator_after_def batch_at_def)
  next
    case False
    with m have lt: "?m < ?n" by simp
    then have d: "drop ?m dataset = dataset ! ?m # drop (Suc ?m) dataset"
      by (simp add: Cons_nth_drop_Suc)
    from False have "Suc j mod ?n = ?m" by (simp add: mod_Suc)
    with d Suc show ?thesis
      by (simp add: next_batch_def iterator_after_def batch_at_def)
  qed
qed


lemmas round_eval =
  round_double_def binary_exponent_def exponent_down.simps exponent_up.simps pow2_def
  round_half_even_def Let_def

lemma float_literal_values:
  "float_literal 0 = Finite 0"
  "float_literal 1 = Finite 1"
  "float_literal 5 = Finite 5"
  "float_literal 0.05 = Finite (3602879701896397 / 72057594037927936)"
  "float_literal (1 / 20) = Finite (3602879701896397 / 72057594037927936)"
  by (simp_all add: float_literal_def round_eval)


lemma smoothing_positive: "fgt SMOOTHING_FACTOR (float_literal 0)"
  by (simp add: SMOOTHING_FACTOR_def float_literal_values)

lemma track_best_loss_after:
  "track_best_loss k (loss_at loss_of dataset k)
     ((finder_after loss_of lr_of dataset k)\<lparr>iterator := it\<rparr>)
   = Inr (smoothed (loss_at loss_of dataset) k,
          (finder_after loss_of lr_of dataset k)
            \<lparr>iterator := it, best_loss := Some (best_smoothed (loss_at loss_of dataset) k)\<rparr>)"
proof (cases k)
  case 0
  then show ?thesis
    by (simp add: track_best_loss_def finder_after_def)
next
  case (Suc j)
  let ?l = "loss_at loss_of dataset"
  have h: "history_loss (finder_after loss_of lr_of dataset (Suc j))
             = map (smoothed ?l) [0..<j] @ [smoothed ?l j]"
    by (simp add: finder_after_def)
  show ?thesis
    unfolding Suc
    by (simp add: track_best_loss_def h smoothing_positive Let_def list.case_eq_if)
       (simp add: finder_after_def SMOOTHING_FACTOR_def)
qed

lemma finder_step_after:
  assumes "dataset \<noteq> []"
  shows "finder_step loss_of lr_of dataset k (finder_after loss_of lr_of dataset k)
           = Inr (finder_after loss_of lr_of dataset (Suc k), diverged (loss_at loss_of dataset) k)"
proof -
  have it: "iterator (finder_after loss_of lr_of dataset k) = iterator_after dataset k"
    by (simp add: finder_after_def)
  show ?thesis
    by (simp add: finder_step_def it next_batch_cycle [OF assms] track_best_loss_after
          loss_at_def [symmetric] Let_def diverged_def DIVERGENCE_THRESHOLD_def)
       (simp add: finder_after_def)
qed

lemma finder_loop_after:
  assumes "dataset \<noteq> []"
  shows "finder_loop loss_of lr_of dataset [k..<k + m] (finder_after loss_of lr_of dataset k)
           = Inr (finder_after loss_of lr_of dataset (run_until (loss_at loss_of dataset) k m))"
proof (induction m arbitrary: k)
  case 0
  show ?case by simp
next
  case (Suc m)
  have "[k..<k + Suc m] = k # [Suc k..<Suc k + m]"
    by (simp add: upt_rec)
  with Suc [of "Suc k"] show ?case
    by (simp add: finder_step_after [OF assms])
qed

lemma finder_search_after:
  assumes "dataset \<noteq> []"
  shows "finder_search loss_of lr_of dataset
           = Inr (finder_after loss_of lr_of dataset (run_until (loss_at loss_of dataset) 0 NUM_ITERATION))"
  using finder_loop_after [OF assms, of loss_of lr_of 0 NUM_ITERATION]
  by (simp add: finder_search_def finder_after_def iterator_after_def)

lemma run_until_bounds: "k \<le> run_until l k m \<and> run_until l k m \<le> k + m"
proof (induction m arbitrary: k)
  case 0
  show ?case by simp
next
  case (Suc m)
  from Suc [of "Suc k"] show ?case by (cases "diverged l k") simp_all
qed

lemma run_until_positive: "0 < m \<Longrightarrow> k < run_until l k m"
  using run_until_bounds [of "Suc k" l "m - 1"] by (cases m) auto





lemma finder_step_appends:
  assumes "finder_step loss_of lr_of dataset it st = Inr (st', stop)"
  shows "history_lr st' = history_lr st @ [lr_of it] \<and> (\<exists>s. history_loss st' = history_loss st @ [s])"
  using assms
  by (auto simp: finder_step_def track_best_loss_def Let_def
           split: sum.splits prod.splits if_splits list.splits option.splits)

lemma finder_loop_lengths:
  assumes "finder_loop loss_of lr_of dataset its st = Inr st'"
    and "length (history_lr st) = length (history_loss st)"
  shows "length (history_lr st') = length (history_loss st')
         \<and> length (history_loss st') \<le> length (history_loss st) + length its"
  using assms
proof (induction its arbitrary: st)
  case Nil
  then show ?case by simp
next
  case (Cons it its)
  from Cons.prems(1) obtain st1 stop where
    step: "finder_step loss_of lr_of dataset it st = Inr (st1, stop)"
    and rest: "if stop then st' = st1 else finder_loop loss_of lr_of dataset its st1 = Inr st'"
    by (auto split: sum.splits if_splits)
  from finder_step_appends [OF step] Cons.prems(2) have
    l1: "length (history_lr st1) = length (history_loss st1)"
    and l2: "length (history_loss st1) = Suc (length (history_loss st))"
    by auto
  show ?case
  proof (cases stop)
    case True
    with rest l1 l2 show ?thesis by simp
  next
    case False
    with rest have "finder_loop loss_of lr_of dataset its st1 = Inr st'" by simp
    from Cons.IH [OF this l1] l2 show ?thesis by simp
  qed
qed

lemma finder_search_empty:
  "finder_search loss_of lr_of [] = Inl StopIteration"
proof -
  have "[0..<NUM_ITERATION] = 0 # [1..<NUM_ITERATION]"
    by (simp add: NUM_ITERATION_def upt_conv_Cons)
  then show ?thesis
    by (simp add: finder_search_def finder_step_def next_batch_def)
qed







lemma finder_histories_aligned:
  "(\<forall>it st st' stop.
      finder_step loss_of lr_of dataset it st = Inr (st', stop) \<longrightarrow>
        history_lr st' = history_lr st @ [lr_of it]
        \<and> (\<exists>s. history_loss st' = history_loss st @ [s]))
   \<and> (\<forall>n st.
        finder_loop loss_of lr_of dataset [0..<n]
          \<lparr>history_lr = [], history_loss = [], best_loss = None, iterator = dataset\<rparr> = Inr st \<longrightarrow>
          length (history_lr st) = length (history_loss st) \<and> length (history_loss st) \<le> n)
   \<and> (dataset \<noteq> [] \<longrightarrow>
        (\<exists>st k. finder_search loss_of lr_of dataset = Inr st \<and> 0 < k \<and> k \<le> NUM_ITERATION
           \<and> history_lr st = map lr_of [0..<k]
           \<and> history_loss st = map (smoothed (loss_at loss_of dataset)) [0..<k]))"
proof (intro conjI allI impI)
  fix it st st' stop
  assume "finder_step loss_of lr_of dataset it st = Inr (st', stop)"
  from finder_step_appends [OF this]
  show "history_lr st' = history_lr st @ [lr_of it]"
    and "\<exists>s. history_loss st' = history_loss st @ [s]"
    by simp_all
next
  fix n st
  assume loop: "finder_loop loss_of lr_of dataset [0..<n]
          \<lparr>history_lr = [], history_loss = [], best_loss = None, iterator = dataset\<rparr> = Inr st"
  from finder_loop_lengths [OF loop]
  show "length (history_lr st) = length (history_loss st)" and "length (history_loss st) \<le> n"
    by simp_all
next
  assume ne: "dataset \<noteq> []"
  let ?l = "loss_at loss_of dataset"
  let ?k = "run_until ?l 0 NUM_ITERATION"
  let ?st = "finder_after loss_of lr_of dataset ?k"
  have 0: "finder_search loss_of lr_of dataset = Inr ?st"
    by (rule finder_search_after [OF ne])
  have 1: "0 < ?k"
    by (rule run_until_positive) (simp add: NUM_ITERATION_def)
  have 2: "?k \<le> NUM_ITERATION"
    using run_until_bounds [of 0 ?l NUM_ITERATION] by simp
  have 3: "history_lr ?st = map lr_of [0..<?k]"
    and 4: "history_loss ?st = map (smoothed ?l) [0..<?k]"
    by (simp_all add: finder_after_def)
  from 0 1 2 3 4
  show "\<exists>st k. finder_search loss_of lr_of dataset = Inr st \<and> 0 < k \<and> k \<le> NUM_ITERATION
           \<and> history_lr st = map lr_of [0..<k]
           \<and> history_loss st = map (smoothed (loss_at loss_of dataset)) [0..<k]"
    by (intro exI [of _ ?st] exI [of _ ?k] conjI)
qed

text \<open>
  C10. The loop of \<open>LearningRareFinder.run\<close> keeps the two sequences of the history
  aligned, one learning rate and one smoothed loss per completed iteration. But the
  sequences are not persisted: no call of \<open>LearningRareFinder.run\<close> returns. On a
  dataset that is not empty the loop ends, and the run then raises \<open>NameError\<close> on
  line 504, where the name \<open>plt\<close> is unbound, before \<open>json.dump\<close> on line 506
  is reached, so history.json is never written; on an empty dataset the first
  iteration raises \<open>StopIteration\<close>.
\<close>

theorem finder_run_raises:
  "finder_run loss_of lr_of dataset = Inl (if dataset = [] then StopIteration else NameError)"
proof (cases "dataset = []")
  case True
  then show ?thesis
    by (simp add: finder_run_def finder_search_empty)
next
  case False
  from finder_search_after [OF False, of loss_of lr_of] False show ?thesis
    by (simp add: finder_run_def plt_savefig_def)
qed

end
